theory Spec2Isabelle
  imports Main "HOL-Library.Sublist"
begin

section \<open>Strings\<close>

text \<open>
  A JavaScript string is a sequence of UTF-16 code units. Names and search text are
  modelled as lists of code units; identifiers and colour names, which the program only
  compares for equality, are plain strings.
\<close>

type_synonym jsstring = "nat list"

definition js :: "string \<Rightarrow> jsstring" where
  "js s = map of_char s"

text \<open>
  \<open>str.normalize('NFD')\<close>: canonical decomposition. The decomposition table is part of
  the JavaScript runtime; it is written out here for the code units below U+0100 (Basic
  Latin and Latin-1 Supplement), which is the alphabet of the configured store and
  location names. Code units from U+0100 on are left as they are by this table, whereas
  the runtime decomposes letters there as well (U+0160 into S and U+030C, for one): on
  strings with such code units the model and the program differ.
\<close>

definition nfd_unit :: "nat \<Rightarrow> nat list" where
  "nfd_unit c =
    (if c < 0xC0 \<or> 0xFF < c then [c]
     else if c \<in> {0xC0, 0xC1, 0xC2, 0xC3, 0xC4, 0xC5} then [0x41, [0x300, 0x301, 0x302, 0x303, 0x308, 0x30A] ! (c - 0xC0)]
     else if c = 0xC7 then [0x43, 0x327]
     else if c \<in> {0xC8, 0xC9, 0xCA, 0xCB} then [0x45, [0x300, 0x301, 0x302, 0x308] ! (c - 0xC8)]
     else if c \<in> {0xCC, 0xCD, 0xCE, 0xCF} then [0x49, [0x300, 0x301, 0x302, 0x308] ! (c - 0xCC)]
     else if c = 0xD1 then [0x4E, 0x303]
     else if c \<in> {0xD2, 0xD3, 0xD4, 0xD5, 0xD6} then [0x4F, [0x300, 0x301, 0x302, 0x303, 0x308] ! (c - 0xD2)]
     else if c \<in> {0xD9, 0xDA, 0xDB, 0xDC} then [0x55, [0x300, 0x301, 0x302, 0x308] ! (c - 0xD9)]
     else if c = 0xDD then [0x59, 0x301]
     else if c \<in> {0xE0, 0xE1, 0xE2, 0xE3, 0xE4, 0xE5} then [0x61, [0x300, 0x301, 0x302, 0x303, 0x308, 0x30A] ! (c - 0xE0)]
     else if c = 0xE7 then [0x63, 0x327]
     else if c \<in> {0xE8, 0xE9, 0xEA, 0xEB} then [0x65, [0x300, 0x301, 0x302, 0x308] ! (c - 0xE8)]
     else if c \<in> {0xEC, 0xED, 0xEE, 0xEF} then [0x69, [0x300, 0x301, 0x302, 0x308] ! (c - 0xEC)]
     else if c = 0xF1 then [0x6E, 0x303]
     else if c \<in> {0xF2, 0xF3, 0xF4, 0xF5, 0xF6} then [0x6F, [0x300, 0x301, 0x302, 0x303, 0x308] ! (c - 0xF2)]
     else if c \<in> {0xF9, 0xFA, 0xFB, 0xFC} then [0x75, [0x300, 0x301, 0x302, 0x308] ! (c - 0xF9)]
     else if c = 0xFD then [0x79, 0x301]
     else if c = 0xFF then [0x79, 0x308]
     else [c])"

definition normalizeNFD :: "jsstring \<Rightarrow> jsstring" where
  "normalizeNFD str = concat (map nfd_unit str)"

text \<open>
  The character class of the regular expression in \<open>normalizeString\<close>: the combining
  marks from U+0300 to U+036F.
\<close>

definition isCombiningMark :: "nat \<Rightarrow> bool" where
  "isCombiningMark c \<longleftrightarrow> 0x300 \<le> c \<and> c \<le> 0x36F"

text \<open>
  \<open>toLowerCase()\<close> on one code unit, for the same range as the table above: the letters
  A to Z, and the capital letters of Latin-1 (U+00C0 to U+00DE without the
  multiplication sign U+00D7). Capital letters from U+0100 on, which the runtime lowers
  as well (U+0152 to U+0153, for one), are left as they are.
\<close>

definition lower_unit :: "nat \<Rightarrow> nat" where
  "lower_unit c =
    (if 0x41 \<le> c \<and> c \<le> 0x5A then c + 0x20
     else if 0xC0 \<le> c \<and> c \<le> 0xDE \<and> c \<noteq> 0xD7 then c + 0x20
     else c)"

definition toLowerCase :: "jsstring \<Rightarrow> jsstring" where
  "toLowerCase str = map lower_unit str"

text \<open>
  \<open>normalizeString(str)\<close>:
  decompose, delete every combining mark from U+0300 to U+036F, then lower the case.
\<close>

definition normalizeString :: "jsstring \<Rightarrow> jsstring" where
  "normalizeString str = toLowerCase (filter (\<lambda>c. \<not> isCombiningMark c) (normalizeNFD str))"

section \<open>Data model\<close>

text \<open>A Trello list, label and card, with the fields the program reads.\<close>

record lst =
  list_id :: string
  list_name :: jsstring

record label =
  label_id :: string
  label_name :: jsstring
  label_color :: "string option"

record card =
  card_id :: string
  card_name :: jsstring
  card_desc :: jsstring
  idList :: string
  idLabels :: "string list"

text \<open>An entry of \<open>recentProducts\<close>: \<open>{ cardId, timestamp }\<close>.\<close>

record recent =
  cardId :: string
  timestamp :: nat

text \<open>The configuration object (\<open>CONFIG_SEED\<close> and its stored copy).\<close>

record store_def =
  store_name :: jsstring
  store_color :: string

record location_def =
  location_name :: jsstring
  location_color :: string

record config =
  allProductsName :: jsstring
  activeListName :: jsstring
  stores :: "store_def list"
  locations :: "location_def list"

datatype view = Stores | Detail | Shopping

text \<open>
  The remote calls the program makes, and what it tells the user (\<open>showToast\<close>).
\<close>

datatype request =
    CreateList jsstring nat
  | CreateLabel jsstring string
  | CreateCard string jsstring "string list" jsstring
  | MoveCard string string
  | DeleteCard string

text \<open>
  What a function of the class can throw: a \<open>TypeError\<close> from reading a property of
  \<open>null\<close> or \<open>undefined\<close>, or an \<open>Error\<close> with a message (a remote call that was
  rejected, a file that is not an import document).
\<close>

datatype js_error = NullDeref | Failed jsstring

datatype toast =
    BusyToast
  | ErrorToast jsstring
  | LoadErrorToast js_error
  | MovedToast jsstring bool
  | DeletedToast nat nat
  | ImportedToast nat nat nat
  | ImportErrorToast js_error

text \<open>A callback handed to \<open>requestAnimationFrame\<close>, to be run at the next paint.\<close>

datatype frame = FrameDetail | FrameCurrentView

text \<open>
  The fields of \<open>TrelloShoppingApp\<close>. \<open>sent\<close>, \<open>toasts\<close> and \<open>frames\<close> are not fields of
  the class: they record, in order, the remote calls issued, the messages shown and the
  re-renders scheduled, so that statements about them can be made.
\<close>

record app =
  board_lists :: "lst list"
  allProductsList :: "lst option"
  activeList :: "lst option"
  cards :: "card list"
  labels :: "label list"
  config :: config
  currentView :: view
  currentStore :: "label option"
  selectedStore :: "label option"
  searchQuery :: jsstring
  recentProducts :: "recent list"
  sent :: "request list"
  toasts :: "toast list"
  frames :: "frame list"

section \<open>Recent products\<close>

text \<open>
  \<open>addToRecentProducts(cardId)\<close>, with the value of \<open>Date.now()\<close> as a parameter: remove
  the entry of the card if there is one, put the new entry first, keep the first ten.
\<close>

definition addToRecentProducts :: "string \<Rightarrow> nat \<Rightarrow> app \<Rightarrow> app" where
  "addToRecentProducts cid now s =
     s\<lparr>recentProducts :=
         take 10 (\<lparr>cardId = cid, timestamp = now\<rparr>
                  # filter (\<lambda>item. cardId item \<noteq> cid) (recentProducts s))\<rparr>"

section \<open>The remote service\<close>

text \<open>
  \<open>trelloFetch\<close> is the program's only way to the Trello service. What the service
  answers is a parameter of the model: the reply to the \<open>k\<close>-th call the program makes
  (\<open>k\<close> is the length of \<open>sent\<close> when the call is issued), either the message of the
  error the call is rejected with (\<open>Inl\<close>) or the entity the service returns (\<open>Inr\<close>).
\<close>

record service =
  list_reply :: "nat \<Rightarrow> jsstring + lst"
  label_reply :: "nat \<Rightarrow> jsstring + label"
  card_reply :: "nat \<Rightarrow> jsstring + card"
  move_reply :: "nat \<Rightarrow> jsstring + unit"
  delete_reply :: "nat \<Rightarrow> jsstring + unit"

section \<open>Search\<close>

text \<open>
  The white space of \<open>\\s\<close> in a regular expression, which is also what \<open>trim()\<close>
  removes: tab, line feed, vertical tab, form feed, carriage return, space, no-break
  space, U+1680, U+2000 to U+200A, the line and paragraph separators, U+202F, U+205F,
  U+3000 and U+FEFF.
\<close>

definition isSpace :: "nat \<Rightarrow> bool" where
  "isSpace c \<longleftrightarrow>
     c \<in> {0x09, 0x0A, 0x0B, 0x0C, 0x0D, 0x20, 0xA0, 0x1680, 0x2028, 0x2029, 0x202F, 0x205F,
          0x3000, 0xFEFF}
     \<or> (0x2000 \<le> c \<and> c \<le> 0x200A)"

definition trim :: "jsstring \<Rightarrow> jsstring" where
  "trim str = rev (dropWhile isSpace (rev (dropWhile isSpace str)))"

text \<open>
  \<open>name.split(/\\s+/)\<close>: the pieces of the string between the maximal runs of white
  space. A string that begins (ends) with white space has an empty first (last) piece,
  and the empty string has the single piece \<open>""\<close>.
\<close>

function split_ws :: "jsstring \<Rightarrow> jsstring list" where
  "split_ws str =
     (case dropWhile (\<lambda>c. \<not> isSpace c) str of
        [] \<Rightarrow> [str]
      | _ # r \<Rightarrow> takeWhile (\<lambda>c. \<not> isSpace c) str # split_ws (dropWhile isSpace r))"
  by pat_completeness auto
termination
proof (relation "measure length")
  show "wf (measure length)" by simp
next
  fix str :: jsstring and x r
  assume rest: "dropWhile (\<lambda>c. \<not> isSpace c) str = x # r"
  have "length (dropWhile isSpace r) \<le> length r"
    by (rule length_dropWhile_le)
  moreover have "length (x # r) \<le> length str"
    using length_dropWhile_le [of "\<lambda>c. \<not> isSpace c" str] rest by simp
  ultimately show "(dropWhile isSpace r, str) \<in> measure length" by simp
qed

declare split_ws.simps [simp del]

text \<open>
  The filter of \<open>renderStoreDetail\<close> on the available cards. It is applied only when
  \<open>searchQuery\<close> is not the empty string; the query is trimmed before it is normalized.
\<close>

definition matchesQuery :: "jsstring \<Rightarrow> jsstring \<Rightarrow> bool" where
  "matchesQuery q name \<longleftrightarrow>
     (if q \<noteq> [] then
        (let query = normalizeString (trim q);
             name' = normalizeString name;
             words = split_ws name'
         in list_ex (\<lambda>word. prefix query word) words)
      else True)"

section \<open>Arrays\<close>

text \<open>\<open>findIndex\<close>, with \<open>None\<close> for the result \<open>-1\<close>.\<close>

fun findIndex :: "('a \<Rightarrow> bool) \<Rightarrow> 'a list \<Rightarrow> nat option" where
  "findIndex P [] = None"
| "findIndex P (x # xs) = (if P x then Some 0 else map_option Suc (findIndex P xs))"

text \<open>
  \<open>[...xs].sort(cmp)\<close>. The language fixes the result for a consistent comparator
  (one that orders the elements by a key): the elements in ascending order, equal ones
  in their original order. The comparators of this program are of that kind, and the
  stable insertion sort below computes that result.
\<close>

fun insertBy :: "('a \<Rightarrow> 'a \<Rightarrow> int) \<Rightarrow> 'a \<Rightarrow> 'a list \<Rightarrow> 'a list" where
  "insertBy cmp x [] = [x]"
| "insertBy cmp x (y # ys) = (if cmp x y \<le> 0 then x # y # ys else y # insertBy cmp x ys)"

definition sortBy :: "('a \<Rightarrow> 'a \<Rightarrow> int) \<Rightarrow> 'a list \<Rightarrow> 'a list" where
  "sortBy cmp xs = foldr (insertBy cmp) xs []"

section \<open>Views\<close>

text \<open>
  What a render function puts into its container: the loading and empty messages, the
  grid of stores with the active and total product counts of each, the two sections of
  a store's detail view (products on the list, available products), and the store
  selector of the shopping mode.
\<close>

datatype rendering =
    StoresLoading
  | StoresEmpty
  | StoreGrid "(label \<times> nat \<times> nat) list"
  | DetailLoading
  | DetailEmpty
  | DetailSections "card list" "card list"
  | StoreSelector "label list"

definition getStoreNames :: "app \<Rightarrow> jsstring list" where
  "getStoreNames s = map store_name (stores (config s))"

definition renderStoreCards :: "app \<Rightarrow> rendering" where
  "renderStoreCards s =
     (case activeList s of
        None \<Rightarrow> StoresLoading
      | Some al \<Rightarrow>
          (let storeNames = getStoreNames s;
               storeLabels = filter (\<lambda>l. label_name l \<in> set storeNames) (labels s);
               activeCount = (\<lambda>l. length (filter (\<lambda>c. idList c = list_id al
                                 \<and> label_id l \<in> set (idLabels c)) (cards s)));
               totalCount = (\<lambda>l. length (filter (\<lambda>c. label_id l \<in> set (idLabels c)) (cards s)));
               sortedStoreLabels =
                 sortBy (\<lambda>a b. int (activeCount b) - int (activeCount a)) storeLabels
           in if storeLabels = [] then StoresEmpty
              else StoreGrid (map (\<lambda>l. (l, activeCount l, totalCount l)) sortedStoreLabels)))"

text \<open>
  The comparator of the available products: a card in the recent-products log comes
  before one that is not, two cards in the log are ordered by their index in it.
\<close>

definition recentCompare :: "recent list \<Rightarrow> card \<Rightarrow> card \<Rightarrow> int" where
  "recentCompare log a b =
     (let aIndex = findIndex (\<lambda>item. cardId item = card_id a) log;
          bIndex = findIndex (\<lambda>item. cardId item = card_id b) log
      in case (aIndex, bIndex) of
           (Some i, Some j) \<Rightarrow> int i - int j
         | (Some i, None) \<Rightarrow> - 1
         | (None, Some j) \<Rightarrow> 1
         | (None, None) \<Rightarrow> 0)"

definition availableCards :: "app \<Rightarrow> lst \<Rightarrow> label \<Rightarrow> card list" where
  "availableCards s pl storeLabel =
     (let allStoreCards = filter (\<lambda>c. label_id storeLabel \<in> set (idLabels c)) (cards s);
          available = filter (\<lambda>c. idList c = list_id pl) allStoreCards
      in filter (\<lambda>c. matchesQuery (searchQuery s) (card_name c)) available)"

definition renderStoreDetail :: "app \<Rightarrow> label \<Rightarrow> rendering" where
  "renderStoreDetail s storeLabel =
     (case (activeList s, allProductsList s) of
        (Some al, Some pl) \<Rightarrow>
          (let allStoreCards = filter (\<lambda>c. label_id storeLabel \<in> set (idLabels c)) (cards s);
               activeCards = filter (\<lambda>c. idList c = list_id al) allStoreCards;
               available = availableCards s pl storeLabel
           in if activeCards = [] \<and> available = [] then DetailEmpty
              else DetailSections activeCards (sortBy (recentCompare (recentProducts s)) available))
      | _ \<Rightarrow> DetailLoading)"

definition renderStoreSelector :: "app \<Rightarrow> rendering" where
  "renderStoreSelector s =
     StoreSelector (filter (\<lambda>l. label_name l \<in> set (getStoreNames s)) (labels s))"

text \<open>
  The three functions that enter a view. Each returns the new state and what it renders.
  \<open>showShoppingMode\<close> resets \<open>selectedStore\<close>, so that \<open>renderShoppingMode\<close> shows the
  store selector.
\<close>

definition showStoreCards :: "app \<Rightarrow> app \<times> rendering" where
  "showStoreCards s =
     (let s' = s\<lparr>currentView := Stores, searchQuery := []\<rparr>
      in (s', renderStoreCards s'))"

definition showStoreDetail :: "label \<Rightarrow> app \<Rightarrow> app \<times> rendering" where
  "showStoreDetail storeLabel s =
     (let s' = s\<lparr>currentView := Detail, currentStore := Some storeLabel, searchQuery := []\<rparr>
      in (s', renderStoreDetail s' storeLabel))"

definition showShoppingMode :: "app \<Rightarrow> app \<times> rendering" where
  "showShoppingMode s =
     (let s' = s\<lparr>currentView := Shopping, selectedStore := None\<rparr>
      in (s', renderStoreSelector s'))"

section \<open>Moving a product between the lists\<close>

text \<open>
  \<open>card.idList = l\<close> for the card that \<open>this.cards.find(c => c.id === cardId)\<close> returned:
  the first card of the cache with that identifier is the object that is changed.
\<close>

fun setIdList :: "string \<Rightarrow> string \<Rightarrow> card list \<Rightarrow> card list" where
  "setIdList cid l [] = []"
| "setIdList cid l (c # cs) =
     (if card_id c = cid then c\<lparr>idList := l\<rparr> # cs else c # setIdList cid l cs)"

text \<open>
  \<open>toggleProduct(cardId)\<close>, the handler of a click in a store's detail view. The value
  of \<open>Date.now()\<close> is a parameter. Reading \<open>this.activeList.id\<close> or
  \<open>this.allProductsList.id\<close> of a list that is not set throws before anything is changed.
\<close>

definition toggleProduct :: "service \<Rightarrow> string \<Rightarrow> nat \<Rightarrow> app \<Rightarrow> js_error + app" where
  "toggleProduct svc cid now s =
     (case find (\<lambda>c. card_id c = cid) (cards s) of
        None \<Rightarrow> Inr s
      | Some card' \<Rightarrow>
          (case activeList s of
             None \<Rightarrow> Inl NullDeref
           | Some al \<Rightarrow>
               (case (if idList card' = list_id al then map_option list_id (allProductsList s)
                      else Some (list_id al)) of
                  None \<Rightarrow> Inl NullDeref
                | Some targetListId \<Rightarrow>
                    (let previousListId = idList card';
                         wasActive = (previousListId = list_id al);
                         s1 = s\<lparr>cards := setIdList cid targetListId (cards s)\<rparr>;
                         s2 = (if wasActive then addToRecentProducts cid now s1 else s1);
                         s3 = s2\<lparr>frames := frames s2 @ [FrameDetail],
                                 sent := sent s2 @ [MoveCard cid targetListId]\<rparr>
                     in case move_reply svc (length (sent s)) of
                          Inr _ \<Rightarrow> Inr s3
                        | Inl msg \<Rightarrow>
                            Inr (s3\<lparr>cards := setIdList cid previousListId (cards s3),
                                    frames := frames s3 @ [FrameDetail],
                                    toasts := toasts s3 @ [ErrorToast msg]\<rparr>)))))"

text \<open>
  \<open>toggleCardActive(cardId)\<close>, the handler of a click in the shopping view. Here
  \<open>this.activeList?.id\<close> of a list that is not set is \<open>undefined\<close>, which no card's
  \<open>idList\<close> equals; \<open>targetList.id\<close> of a list that is not set throws.
\<close>

definition toggleCardActive :: "service \<Rightarrow> string \<Rightarrow> nat \<Rightarrow> app \<Rightarrow> js_error + app" where
  "toggleCardActive svc cid now s =
     (case find (\<lambda>c. card_id c = cid) (cards s) of
        None \<Rightarrow> Inr s
      | Some card' \<Rightarrow>
          (let isCurrentlyActive =
                 (case activeList s of None \<Rightarrow> False | Some al \<Rightarrow> idList card' = list_id al);
               targetList = (if isCurrentlyActive then allProductsList s else activeList s)
           in case targetList of
                None \<Rightarrow> Inl NullDeref
              | Some target \<Rightarrow>
                  (let previousListId = idList card';
                       s1 = s\<lparr>cards := setIdList cid (list_id target) (cards s),
                               frames := frames s @ [FrameCurrentView],
                               sent := sent s @ [MoveCard cid (list_id target)]\<rparr>
                   in case move_reply svc (length (sent s)) of
                        Inl msg \<Rightarrow>
                          Inr (s1\<lparr>cards := setIdList cid previousListId (cards s1),
                                  frames := frames s1 @ [FrameCurrentView],
                                  toasts := toasts s1 @ [ErrorToast msg]\<rparr>)
                      | Inr _ \<Rightarrow>
                          (let s2 = (if isCurrentlyActive then addToRecentProducts cid now s1
                                     else s1)
                           in Inr (s2\<lparr>toasts := toasts s2
                                        @ [MovedToast (card_name card') isCurrentlyActive]\<rparr>)))))"

text \<open>The list a product is in, as the cache has it.\<close>

definition listOf :: "string \<Rightarrow> app \<Rightarrow> string option" where
  "listOf cid s = map_option idList (find (\<lambda>c. card_id c = cid) (cards s))"

text \<open>A product is active when it is in the active list.\<close>

definition isActive :: "string \<Rightarrow> app \<Rightarrow> bool" where
  "isActive cid s \<longleftrightarrow>
     (case activeList s of None \<Rightarrow> False | Some al \<Rightarrow> listOf cid s = Some (list_id al))"

section \<open>Board bootstrap\<close>

text \<open>
  A step of an asynchronous function that may throw after it has changed the state
  returns the state it reached together with the error, if any; \<open>andThen\<close> runs the next
  step only when there was none.
\<close>

definition andThen :: "app \<times> js_error option \<Rightarrow> (app \<Rightarrow> app \<times> js_error option)
    \<Rightarrow> app \<times> js_error option" where
  "andThen r f = (case r of (s, None) \<Rightarrow> f s | (s, Some e) \<Rightarrow> (s, Some e))"

text \<open>
  The loop \<open>for (const d of defs) { label = await this.createLabel(...); this.labels.push(label) }\<close>
  over pairs of a name and a colour.
\<close>

fun createLabels :: "service \<Rightarrow> (jsstring \<times> string) list \<Rightarrow> app \<Rightarrow> app \<times> js_error option" where
  "createLabels svc [] s = (s, None)"
| "createLabels svc ((name, color) # defs) s =
     (let s1 = s\<lparr>sent := sent s @ [CreateLabel name color]\<rparr>
      in case label_reply svc (length (sent s)) of
           Inl msg \<Rightarrow> (s1, Some (Failed msg))
         | Inr l \<Rightarrow> createLabels svc defs (s1\<lparr>labels := labels s1 @ [l]\<rparr>))"

definition locationColors :: "string list" where
  "locationColors = [''green'', ''blue'', ''purple'', ''sky'', ''lime'', ''pink'']"

definition storeColors :: "string list" where
  "storeColors = [''orange'', ''red'', ''yellow'', ''black'']"

text \<open>\<open>[...].includes(l.color)\<close>; a label without a colour has \<open>color\<close> \<open>null\<close>.\<close>

definition hasColorIn :: "string list \<Rightarrow> label \<Rightarrow> bool" where
  "hasColorIn colors l \<longleftrightarrow>
     (case label_color l of None \<Rightarrow> False | Some c \<Rightarrow> c \<in> set colors)"

text \<open>The four steps of \<open>setupBoardStructure\<close>, in the order of the source.\<close>

definition ensureAllProductsList :: "service \<Rightarrow> app \<Rightarrow> app \<times> js_error option" where
  "ensureAllProductsList svc s =
     (case allProductsList s of
        Some _ \<Rightarrow> (s, None)
      | None \<Rightarrow>
          (let s1 = s\<lparr>sent := sent s @ [CreateList (allProductsName (config s)) 1]\<rparr>
           in case list_reply svc (length (sent s)) of
                Inl msg \<Rightarrow> (s1, Some (Failed msg))
              | Inr l \<Rightarrow>
                  (s1\<lparr>allProductsList := Some l, board_lists := board_lists s1 @ [l]\<rparr>, None)))"

definition ensureActiveList :: "service \<Rightarrow> app \<Rightarrow> app \<times> js_error option" where
  "ensureActiveList svc s =
     (case activeList s of
        Some _ \<Rightarrow> (s, None)
      | None \<Rightarrow>
          (let s1 = s\<lparr>sent := sent s @ [CreateList (activeListName (config s)) 2]\<rparr>
           in case list_reply svc (length (sent s)) of
                Inl msg \<Rightarrow> (s1, Some (Failed msg))
              | Inr l \<Rightarrow>
                  (s1\<lparr>activeList := Some l, board_lists := board_lists s1 @ [l]\<rparr>, None)))"

definition locationRequests :: "app \<Rightarrow> (jsstring \<times> string) list" where
  "locationRequests s = map (\<lambda>loc. (location_name loc, location_color loc)) (locations (config s))"

definition storeRequests :: "app \<Rightarrow> (jsstring \<times> string) list" where
  "storeRequests s = map (\<lambda>store. (store_name store, store_color store)) (stores (config s))"

definition ensureLocationLabels :: "service \<Rightarrow> app \<Rightarrow> app \<times> js_error option" where
  "ensureLocationLabels svc s =
     (let locationLabels = filter (hasColorIn locationColors) (labels s)
      in if length locationLabels = 0 then createLabels svc (locationRequests s) s
         else (s, None))"

definition ensureStoreLabels :: "service \<Rightarrow> app \<Rightarrow> app \<times> js_error option" where
  "ensureStoreLabels svc s =
     (let storeLabels = filter (hasColorIn storeColors) (labels s)
      in if length storeLabels = 0 then createLabels svc (storeRequests s) s
         else (s, None))"

definition setupBoardStructure :: "service \<Rightarrow> app \<Rightarrow> app \<times> js_error option" where
  "setupBoardStructure svc s =
     andThen (andThen (andThen (ensureAllProductsList svc s) (ensureActiveList svc))
                (ensureLocationLabels svc)) (ensureStoreLabels svc)"

text \<open>
  \<open>loadBoard()\<close>. What the four fetches of the board return is a parameter: the error
  one of them is rejected with, or the lists, cards and labels of the board. The
  structure is set up only when one of the two lists was not found by its name.
\<close>

definition loadBoard :: "service \<Rightarrow> jsstring + lst list \<times> card list \<times> label list \<Rightarrow> app
    \<Rightarrow> app \<times> rendering option" where
  "loadBoard svc fetched s =
     (case fetched of
        Inl msg \<Rightarrow> (s\<lparr>toasts := toasts s @ [LoadErrorToast (Failed msg)]\<rparr>, None)
      | Inr (lists', cards', labels') \<Rightarrow>
          (let s1 = s\<lparr>board_lists := lists', cards := cards', labels := labels',
                       allProductsList :=
                         find (\<lambda>l. list_name l = allProductsName (config s)) lists',
                       activeList := find (\<lambda>l. list_name l = activeListName (config s)) lists'\<rparr>;
               r = (if allProductsList s1 = None \<or> activeList s1 = None
                    then setupBoardStructure svc s1 else (s1, None))
           in case r of
                (s2, Some e) \<Rightarrow> (s2\<lparr>toasts := toasts s2 @ [LoadErrorToast e]\<rparr>, None)
              | (s2, None) \<Rightarrow> (case showStoreCards s2 of (s3, shown) \<Rightarrow> (s3, Some shown))))"

text \<open>The label-creation calls among the calls issued since the state \<open>s\<close>.\<close>

fun isCreateLabel :: "request \<Rightarrow> bool" where
  "isCreateLabel (CreateLabel _ _) = True"
| "isCreateLabel _ = False"

fun isCreateList :: "request \<Rightarrow> bool" where
  "isCreateList (CreateList _ _) = True"
| "isCreateList _ = False"

definition issuedSince :: "app \<Rightarrow> app \<Rightarrow> request list" where
  "issuedSince s s' = drop (length (sent s)) (sent s')"

section \<open>Deleting all products\<close>

text \<open>
  The loop of \<open>deleteAllProducts\<close> over the cached cards, one deletion at a time; a
  failed deletion is counted and the loop goes on.
\<close>

fun deleteLoop :: "service \<Rightarrow> card list \<Rightarrow> app \<times> nat \<times> nat \<Rightarrow> app \<times> nat \<times> nat" where
  "deleteLoop svc [] acc = acc"
| "deleteLoop svc (c # cs) (s, deleted, failed) =
     (let s1 = s\<lparr>sent := sent s @ [DeleteCard (card_id c)]\<rparr>
      in case delete_reply svc (length (sent s)) of
           Inr _ \<Rightarrow> deleteLoop svc cs (s1, deleted + 1, failed)
         | Inl _ \<Rightarrow> deleteLoop svc cs (s1, deleted, failed + 1))"

definition deleteAllProducts :: "service \<Rightarrow> app \<Rightarrow> app" where
  "deleteAllProducts svc s =
     (case deleteLoop svc (cards s) (s\<lparr>toasts := toasts s @ [BusyToast]\<rparr>, 0, 0) of
        (s1, deleted, failed) \<Rightarrow>
          s1\<lparr>cards := [], toasts := toasts s1 @ [DeletedToast deleted failed]\<rparr>)"

section \<open>Import\<close>

text \<open>
  A product of an import document. A store or a location is referred to by an object
  \<open>{name, color}\<close>, whose colour may be missing, or, in the older format, by its name
  alone.
\<close>

datatype label_ref = RefName jsstring | RefObject jsstring "string option"

record product =
  product_name :: jsstring
  product_desc :: "jsstring option"
  product_stores :: "label_ref list"
  product_locations :: "label_ref list"
  product_inList :: bool

fun refName :: "label_ref \<Rightarrow> jsstring" where
  "refName (RefName n) = n"
| "refName (RefObject n _) = n"

text \<open>
  The colour a missing label is created with: the colour of the object, and the default
  colour of the loop when the reference is a bare name or the colour is missing or empty.
\<close>

fun refColor :: "string \<Rightarrow> label_ref \<Rightarrow> string" where
  "refColor dflt (RefName _) = dflt"
| "refColor dflt (RefObject _ None) = dflt"
| "refColor dflt (RefObject _ (Some c)) = (if c = [] then dflt else c)"

text \<open>
  The loops over \<open>product.stores\<close> and \<open>product.locations\<close>, which differ in the default
  colour only. A label is looked up by \<open>l.name === name\<close>; when there is none it is
  created, and when the creation fails the reference is skipped. The loop carries the
  state, the number of labels created and the label identifiers collected so far.
\<close>

fun resolveLabels :: "service \<Rightarrow> string \<Rightarrow> label_ref list \<Rightarrow> app \<times> nat \<times> string list
    \<Rightarrow> app \<times> nat \<times> string list" where
  "resolveLabels svc dflt [] acc = acc"
| "resolveLabels svc dflt (r # rs) (s, labelsCreated, labelIds) =
     (case find (\<lambda>l. label_name l = refName r) (labels s) of
        Some l \<Rightarrow> resolveLabels svc dflt rs (s, labelsCreated, labelIds @ [label_id l])
      | None \<Rightarrow>
          (let s1 = s\<lparr>sent := sent s @ [CreateLabel (refName r) (refColor dflt r)]\<rparr>
           in case label_reply svc (length (sent s)) of
                Inl _ \<Rightarrow> resolveLabels svc dflt rs (s1, labelsCreated, labelIds)
              | Inr l \<Rightarrow>
                  resolveLabels svc dflt rs
                    (s1\<lparr>labels := labels s1 @ [l]\<rparr>, labelsCreated + 1, labelIds @ [label_id l])))"

text \<open>\<open>this.cards.some(c => c.name.toLowerCase() === product.name.toLowerCase())\<close>\<close>

definition productExists :: "app \<Rightarrow> product \<Rightarrow> bool" where
  "productExists s p \<longleftrightarrow>
     list_ex (\<lambda>c. toLowerCase (card_name c) = toLowerCase (product_name p)) (cards s)"

text \<open>
  The loop of \<open>importProducts\<close> over the products of the document. It carries the state
  and the three counters \<open>imported\<close>, \<open>skipped\<close> and \<open>labelsCreated\<close>, and stops with
  the error when the target list is not set or the creation of a card is rejected.
\<close>

fun importLoop :: "service \<Rightarrow> product list \<Rightarrow> app \<times> nat \<times> nat \<times> nat
    \<Rightarrow> (app \<times> nat \<times> nat \<times> nat) \<times> js_error option" where
  "importLoop svc [] acc = (acc, None)"
| "importLoop svc (p # ps) (s, imported, skipped, labelsCreated) =
     (if productExists s p then importLoop svc ps (s, imported, skipped + 1, labelsCreated)
      else
        (case resolveLabels svc ''orange'' (product_stores p) (s, labelsCreated, []) of
           (s1, created1, ids1) \<Rightarrow>
             (case resolveLabels svc ''green'' (product_locations p) (s1, created1, ids1) of
                (s2, created2, labelIds) \<Rightarrow>
                  (case (if product_inList p then activeList s2 else allProductsList s2) of
                     None \<Rightarrow> ((s2, imported, skipped, created2), Some NullDeref)
                   | Some targetList \<Rightarrow>
                       (let desc = (case product_desc p of None \<Rightarrow> [] | Some d \<Rightarrow> d);
                            s3 = s2\<lparr>sent := sent s2
                                   @ [CreateCard (list_id targetList) (product_name p) labelIds desc]\<rparr>
                        in case card_reply svc (length (sent s2)) of
                             Inl msg \<Rightarrow> ((s3, imported, skipped, created2), Some (Failed msg))
                           | Inr c \<Rightarrow>
                               importLoop svc ps
                                 (s3\<lparr>cards := cards s3 @ [c]\<rparr>, imported + 1, skipped,
                                  created2))))))"

text \<open>
  \<open>importProducts(file)\<close>. The parameter is the parsed document: the message of the
  error when the file is not JSON or has no \<open>version\<close> or no array \<open>products\<close>, and
  the products otherwise.
\<close>

definition importProducts :: "service \<Rightarrow> jsstring + product list \<Rightarrow> app \<Rightarrow> app" where
  "importProducts svc doc s =
     (case doc of
        Inl msg \<Rightarrow> s\<lparr>toasts := toasts s @ [ImportErrorToast (Failed msg)]\<rparr>
      | Inr products \<Rightarrow>
          (case importLoop svc products (s\<lparr>toasts := toasts s @ [BusyToast]\<rparr>, 0, 0, 0) of
             ((s', imported, skipped, labelsCreated), None) \<Rightarrow>
               s'\<lparr>toasts := toasts s' @ [ImportedToast imported skipped labelsCreated]\<rparr>
           | ((s', _), Some e) \<Rightarrow> s'\<lparr>toasts := toasts s' @ [ImportErrorToast e]\<rparr>))"

text \<open>
  The number of deletions that fail when \<open>deleteAllProducts\<close> runs in the state \<open>s\<close>: the
  rejected ones among the calls it issues, one for each cached card.
\<close>

definition failedDeletions :: "service \<Rightarrow> app \<Rightarrow> nat" where
  "failedDeletions svc s =
     length (filter (\<lambda>i. isl (delete_reply svc i))
       [length (sent s)..<length (sent s) + length (cards s)])"

text \<open>The request that \<open>createLabels\<close> issues for a pair of a name and a colour.\<close>

fun labelRequest :: "jsstring \<times> string \<Rightarrow> request" where
  "labelRequest (name, color) = CreateLabel name color"

text \<open>
  The two tests of \<open>setupBoardStructure\<close> on the cached labels: is there a label with one
  of the location colours, is there one with one of the store colours.
\<close>

definition hasLocationLabels :: "app \<Rightarrow> bool" where
  "hasLocationLabels s \<longleftrightarrow> list_ex (hasColorIn locationColors) (labels s)"

definition hasStoreLabels :: "app \<Rightarrow> bool" where
  "hasStoreLabels s \<longleftrightarrow> list_ex (hasColorIn storeColors) (labels s)"

text \<open>
  A store label as the views tell it apart (\<open>storeNames.includes(l.name)\<close>): a label
  whose name is the name of a configured store.
\<close>

definition isStoreLabel :: "app \<Rightarrow> label \<Rightarrow> bool" where
  "isStoreLabel s l \<longleftrightarrow> label_name l \<in> set (getStoreNames s)"


text \<open>
  A whitespace-delimited word of a string, in the words of the specification: a piece
  of the string without white space that has white space, or an end of the string, on
  either side. This definition is not taken from the source; \<open>split_ws\<close> is compared
  with it below.
\<close>

definition isWordOf :: "jsstring \<Rightarrow> jsstring \<Rightarrow> bool" where
  "isWordOf w str \<longleftrightarrow>
     (\<exists>pre post. str = pre @ w @ post \<and> (\<forall>c\<in>set w. \<not> isSpace c)
        \<and> (pre = [] \<or> isSpace (last pre)) \<and> (post = [] \<or> isSpace (hd post)))"

text \<open>
  A service echoes the names of the cards it creates when every card it returns in
  reply to a card creation among the calls \<open>reqs\<close> has the name that was asked for.
\<close>

definition echoesNames :: "service \<Rightarrow> request list \<Rightarrow> bool" where
  "echoesNames svc reqs \<longleftrightarrow>
     list_all (\<lambda>k. case (reqs ! k, card_reply svc k) of
                      (CreateCard _ name _ _, Inr c) \<Rightarrow> card_name c = name
                    | _ \<Rightarrow> True) [0..<length reqs]"

section \<open>Typing a search and refreshing\<close>

text \<open>
  The \<open>input\<close> handler of the search box that \<open>renderStoreDetail\<close> puts into the detail
  view: \<open>this.searchQuery = value\<close>. The re-render follows after the debounce.
\<close>

definition typeSearch :: "jsstring \<Rightarrow> app \<Rightarrow> app" where
  "typeSearch v s = s\<lparr>searchQuery := v\<rparr>"

text \<open>
  \<open>refresh()\<close> starts \<open>loadBoard()\<close> and fixes, by the view at the time of the click, what
  runs when the load has finished: nothing more in the store grid, the detail view of
  the current store again, or \<open>showShoppingMode()\<close>. \<open>loadBoard\<close> catches its own errors,
  so the follow-up runs after a failed load as well. While the load is pending, other
  handlers can run; \<open>refreshed\<close> is the rest of the load and its follow-up on the state
  in which the load finishes.
\<close>

datatype followUp = NoFollowUp | ReopenDetail | ReenterShopping

definition refresh :: "app \<Rightarrow> followUp" where
  "refresh s =
     (case currentView s of
        Stores \<Rightarrow> NoFollowUp
      | Detail \<Rightarrow> ReopenDetail
      | Shopping \<Rightarrow> ReenterShopping)"

definition refreshed :: "service \<Rightarrow> jsstring + lst list \<times> card list \<times> label list \<Rightarrow> followUp
    \<Rightarrow> app \<Rightarrow> app \<times> rendering option" where
  "refreshed svc fetched followUp s =
     (case loadBoard svc fetched s of
        (s1, shown) \<Rightarrow>
          (case followUp of
             NoFollowUp \<Rightarrow> (s1, shown)
           | ReopenDetail \<Rightarrow>
               (case currentStore s1 of
                  None \<Rightarrow> (s1, shown)
                | Some current \<Rightarrow>
                    (case find (\<lambda>l. label_id l = label_id current) (labels s1) of
                       None \<Rightarrow> (s1, shown)
                     | Some storeLabel \<Rightarrow>
                         (case showStoreDetail storeLabel s1 of (s2, r) \<Rightarrow> (s2, Some r))))
           | ReenterShopping \<Rightarrow>
               (case showShoppingMode s1 of (s2, r) \<Rightarrow> (s2, Some r))))"

section \<open>An example board\<close>

text \<open>
  A small board on which the statements below are also evaluated: two stores and two
  locations are configured, both lists exist, and three products carry the label of the
  first store; the second product is on the shopping list.
\<close>

definition example_config :: config where
  "example_config =
     \<lparr>allProductsName = js ''Todos los Productos'', activeListName = js ''Lista Activa'',
      stores = [\<lparr>store_name = js ''Mercadona'', store_color = ''orange''\<rparr>,
                \<lparr>store_name = js ''Farmacia'', store_color = ''red''\<rparr>],
      locations = [\<lparr>location_name = js ''Nevera'', location_color = ''sky''\<rparr>,
                   \<lparr>location_name = js ''Lavabo'', location_color = ''purple''\<rparr>]\<rparr>"

definition catalog_list :: lst where
  "catalog_list = \<lparr>list_id = ''L1'', list_name = js ''Todos los Productos''\<rparr>"

definition active_list :: lst where
  "active_list = \<lparr>list_id = ''L2'', list_name = js ''Lista Activa''\<rparr>"

definition mercadona :: label where
  "mercadona = \<lparr>label_id = ''B1'', label_name = js ''Mercadona'', label_color = Some ''orange''\<rparr>"

definition nevera :: label where
  "nevera = \<lparr>label_id = ''B2'', label_name = js ''Nevera'', label_color = Some ''sky''\<rparr>"

definition leche :: card where
  "leche = \<lparr>card_id = ''c1'', card_name = js ''Leche Entera'', card_desc = [], idList = ''L1'',
            idLabels = [''B1'', ''B2'']\<rparr>"

definition pan :: card where
  "pan = \<lparr>card_id = ''c2'', card_name = js ''Pan'', card_desc = [], idList = ''L2'',
          idLabels = [''B1'']\<rparr>"

definition cafe :: card where
  "cafe = \<lparr>card_id = ''c3'', card_name = js ''Caf'' @ [0xE9], card_desc = [], idList = ''L1'',
           idLabels = [''B1'']\<rparr>"

definition example_app :: app where
  "example_app =
     \<lparr>board_lists = [catalog_list, active_list],
      allProductsList = Some catalog_list,
      activeList = Some active_list,
      cards = [leche, pan, cafe],
      labels = [mercadona, nevera],
      config = example_config,
      currentView = Stores,
      currentStore = None,
      selectedStore = None,
      searchQuery = [],
      recentProducts = [],
      sent = [],
      toasts = [],
      frames = []\<rparr>"

text \<open>A log of ten entries, the most recent first.\<close>

definition full_log :: "recent list" where
  "full_log =
     [\<lparr>cardId = ''r9'', timestamp = 9\<rparr>, \<lparr>cardId = ''r8'', timestamp = 8\<rparr>,
      \<lparr>cardId = ''r7'', timestamp = 7\<rparr>, \<lparr>cardId = ''r6'', timestamp = 6\<rparr>,
      \<lparr>cardId = ''r5'', timestamp = 5\<rparr>, \<lparr>cardId = ''r4'', timestamp = 4\<rparr>,
      \<lparr>cardId = ''r3'', timestamp = 3\<rparr>, \<lparr>cardId = ''r2'', timestamp = 2\<rparr>,
      \<lparr>cardId = ''r1'', timestamp = 1\<rparr>, \<lparr>cardId = ''r0'', timestamp = 0\<rparr>]"

text \<open>A service that accepts every call, and one that rejects every call.\<close>

definition accepting :: service where
  "accepting =
     \<lparr>list_reply = (\<lambda>k. Inr \<lparr>list_id = ''N'', list_name = js ''Lista Activa''\<rparr>),
      label_reply = (\<lambda>k. Inr \<lparr>label_id = ''N'', label_name = js ''Mercadona'',
                                label_color = Some ''orange''\<rparr>),
      card_reply = (\<lambda>k. Inr \<lparr>card_id = ''N'', card_name = js ''Pan'', card_desc = [],
                               idList = ''L1'', idLabels = []\<rparr>),
      move_reply = (\<lambda>k. Inr ()),
      delete_reply = (\<lambda>k. Inr ())\<rparr>"

definition rejecting :: service where
  "rejecting =
     \<lparr>list_reply = (\<lambda>k. Inl (js ''offline'')),
      label_reply = (\<lambda>k. Inl (js ''offline'')),
      card_reply = (\<lambda>k. Inl (js ''offline'')),
      move_reply = (\<lambda>k. Inl (js ''offline'')),
      delete_reply = (\<lambda>k. Inl (js ''offline''))\<rparr>"

text \<open>The example board with the detail view of the first store open and a search typed.\<close>

definition searching_app :: app where
  "searching_app =
     example_app\<lparr>currentView := Detail, currentStore := Some mercadona, searchQuery := js ''le''\<rparr>"

text \<open>
  A label with the name of a store and a colour that is not a store colour, and the
  example board without its active list and without any label of a store colour.
\<close>

definition green_mercadona :: label where
  "green_mercadona = \<lparr>label_id = ''B9'', label_name = js ''Mercadona'', label_color = Some ''green''\<rparr>"

definition unconfigured_app :: app where
  "unconfigured_app = example_app\<lparr>board_lists := [catalog_list], activeList := None, labels := [nevera]\<rparr>"




text \<open>
  The example board in the shopping mode; and the state reached from there by going
  back to the stores, opening the first store and typing the search "le".
\<close>

definition shopping_app :: app where
  "shopping_app = fst (showShoppingMode example_app)"

definition browsing_app :: app where
  "browsing_app =
     typeSearch (js ''le'')
       (fst (showStoreDetail mercadona (fst (showStoreCards shopping_app))))"


text \<open>
  Products of an import document: a new product of the first store, a product whose
  name is that of a cached product in capital letters, and a new product that refers to
  the first store in small letters. The service of the first import returns the card of
  the new product.
\<close>

definition yogur :: product where
  "yogur = \<lparr>product_name = js ''Yogur'', product_desc = None,
             product_stores = [RefObject (js ''Mercadona'') (Some ''orange'')],
             product_locations = [], product_inList = False\<rparr>"

definition pan_upper :: product where
  "pan_upper = \<lparr>product_name = js ''PAN'', product_desc = None, product_stores = [],
                 product_locations = [], product_inList = True\<rparr>"

definition queso :: product where
  "queso = \<lparr>product_name = js ''Queso'', product_desc = None,
             product_stores = [RefName (js ''mercadona'')],
             product_locations = [], product_inList = False\<rparr>"

definition yogur_service :: service where
  "yogur_service =
     accepting\<lparr>card_reply := (\<lambda>k. Inr \<lparr>card_id = ''c4'', card_name = js ''Yogur'', card_desc = [],
                                          idList = ''L1'', idLabels = [''B1'']\<rparr>)\<rparr>"

definition first_import :: app where
  "first_import = importProducts yogur_service (Inr [yogur, pan_upper]) example_app"

section \<open>Properties\<close>

lemma addToRecentProducts_length: "length (recentProducts (addToRecentProducts cid now s)) \<le> 10"
  by (simp add: addToRecentProducts_def)

lemma addToRecentProducts_fold_length:
  "length (recentProducts s) \<le> 10 \<Longrightarrow>
   length (recentProducts (fold (\<lambda>(cid, now). addToRecentProducts cid now) calls s)) \<le> 10"
proof (induction calls arbitrary: s)
  case Nil
  then show ?case by simp
next
  case (Cons call calls)
  obtain cid now where call: "call = (cid, now)" by (cases call)
  show ?case
    using Cons.IH [of "addToRecentProducts cid now s"] addToRecentProducts_length [of cid now s]
    by (simp add: call)
qed

lemma addToRecentProducts_full:
  assumes len: "length (recentProducts s) = 10"
    and new: "cid \<notin> cardId ` set (recentProducts s)"
  shows "recentProducts (addToRecentProducts cid now s)
         = \<lparr>cardId = cid, timestamp = now\<rparr> # butlast (recentProducts s)"
proof -
  have "filter (\<lambda>item. cardId item \<noteq> cid) (recentProducts s) = recentProducts s"
    using new by (auto simp: filter_id_conv)
  then show ?thesis
    using len by (simp add: addToRecentProducts_def butlast_conv_take)
qed

text \<open>
  C4. The recent-products log never exceeds ten entries: whatever calls of
  \<open>addToRecentProducts\<close> are made on a log of at most ten entries, the log has at most
  ten entries afterwards; and adding a product that is not in a full log of ten puts the
  new entry first and drops the last (oldest) entry.
\<close>

theorem recent_log_bounded:
  "(length (recentProducts s) \<le> 10 \<longrightarrow>
      length (recentProducts (fold (\<lambda>(cid, now). addToRecentProducts cid now) calls s)) \<le> 10)
   \<and> (length (recentProducts s) = 10 \<and> cid \<notin> cardId ` set (recentProducts s) \<longrightarrow>
      recentProducts (addToRecentProducts cid now s)
        = \<lparr>cardId = cid, timestamp = now\<rparr> # butlast (recentProducts s))"
  using addToRecentProducts_fold_length addToRecentProducts_full by blast

theorem recent_log_bounded_witness:
  "length (recentProducts (example_app\<lparr>recentProducts := full_log\<rparr>)) = 10
   \<and> ''c1'' \<notin> cardId ` set (recentProducts (example_app\<lparr>recentProducts := full_log\<rparr>))
   \<and> length (recentProducts (fold (\<lambda>(cid, now). addToRecentProducts cid now)
         [(''c1'', 10), (''c3'', 11)] (example_app\<lparr>recentProducts := full_log\<rparr>))) \<le> 10
   \<and> recentProducts (addToRecentProducts ''c1'' 10 (example_app\<lparr>recentProducts := full_log\<rparr>))
       = \<lparr>cardId = ''c1'', timestamp = 10\<rparr> # butlast full_log"
  using recent_log_bounded [of "example_app\<lparr>recentProducts := full_log\<rparr>"
      "[(''c1'', 10), (''c3'', 11)]" "''c1''" 10]
  by (simp add: full_log_def)

text \<open>
  C8. The search normalization gives "Cafe" written with e-acute (U+00E9) and "cafe" the same key.
\<close>

theorem normalize_cafe:
  "normalizeString (js ''Caf'' @ [0xE9]) = normalizeString (js ''cafe'')"
  by (simp add: normalizeString_def normalizeNFD_def nfd_unit_def isCombiningMark_def
      toLowerCase_def lower_unit_def js_def)

subsection \<open>Rollback of a failed move\<close>

lemma setIdList_restore:
  "find (\<lambda>c. card_id c = cid) cs = Some c \<Longrightarrow> idList c = p \<Longrightarrow>
   setIdList cid p (setIdList cid l cs) = cs"
  by (induction cs) (auto split: if_splits)

lemma toggleProduct_rollback:
  assumes fail: "move_reply svc (length (sent s)) = Inl msg"
    and res: "toggleProduct svc cid now s = Inr s'"
  shows "cards s' = cards s"
    and "isActive cid s \<Longrightarrow>
         recentProducts s' \<noteq> [] \<and> hd (recentProducts s') = \<lparr>cardId = cid, timestamp = now\<rparr>"
    and "\<not> isActive cid s \<Longrightarrow> recentProducts s' = recentProducts s"
  using assms
  by (auto simp: toggleProduct_def isActive_def listOf_def addToRecentProducts_def Let_def
      setIdList_restore split: option.splits if_splits sum.splits)

lemma toggleCardActive_rollback:
  assumes fail: "move_reply svc (length (sent s)) = Inl msg"
    and res: "toggleCardActive svc cid now s = Inr s'"
  shows "cards s' = cards s" and "recentProducts s' = recentProducts s"
  using assms
  by (auto simp: toggleCardActive_def Let_def setIdList_restore
      split: option.splits if_splits sum.splits)

text \<open>
  C1, as stated, fails on \<open>toggleCardActive\<close>: that function records the product in the
  recent-products log only after the remote call has succeeded. On the example board the
  product \<open>c2\<close> is active and the log is empty; when the move is rejected, the log is
  still empty, so it holds no entry for the product.
\<close>

theorem toggle_rollback_counterexample:
  "isActive ''c2'' example_app
   \<and> move_reply rejecting (length (sent example_app)) = Inl (js ''offline'')
   \<and> map_sum id recentProducts (toggleCardActive rejecting ''c2'' 5 example_app) = Inr []"
  by (simp add: isActive_def listOf_def example_app_def toggleCardActive_def rejecting_def
      leche_def pan_def cafe_def active_list_def catalog_list_def Let_def)

text \<open>
  C1, amended. When the remote move call fails, both \<open>toggleProduct\<close> and
  \<open>toggleCardActive\<close> leave the cache of cards, and so the list of every product, as it
  was before the call. In \<open>toggleProduct\<close>, when the product was active, the entry pushed
  for it stays at the head of the recent-products log; in \<open>toggleCardActive\<close> the log is
  not changed by a failed toggle.
\<close>

theorem toggle_rollback:
  assumes fail: "move_reply svc (length (sent s)) = Inl msg"
  shows "(toggleProduct svc cid now s = Inr s' \<longrightarrow>
            cards s' = cards s \<and> listOf cid s' = listOf cid s
            \<and> (isActive cid s \<longrightarrow>
                 recentProducts s' \<noteq> []
                 \<and> hd (recentProducts s') = \<lparr>cardId = cid, timestamp = now\<rparr>))
       \<and> (toggleCardActive svc cid now s = Inr s'' \<longrightarrow>
            cards s'' = cards s \<and> listOf cid s'' = listOf cid s
            \<and> recentProducts s'' = recentProducts s)"
proof (intro conjI impI)
  assume res: "toggleProduct svc cid now s = Inr s'"
  show c: "cards s' = cards s"
    using toggleProduct_rollback(1) [OF fail res] .
  show "listOf cid s' = listOf cid s"
    by (simp add: listOf_def c)
  assume "isActive cid s"
  then show "recentProducts s' \<noteq> []"
    and "hd (recentProducts s') = \<lparr>cardId = cid, timestamp = now\<rparr>"
    using toggleProduct_rollback(2) [OF fail res] by simp_all
next
  assume res: "toggleCardActive svc cid now s = Inr s''"
  show c: "cards s'' = cards s"
    using toggleCardActive_rollback(1) [OF fail res] .
  show "listOf cid s'' = listOf cid s"
    by (simp add: listOf_def c)
  show "recentProducts s'' = recentProducts s"
    using toggleCardActive_rollback(2) [OF fail res] .
qed

theorem toggle_rollback_witness:
  "move_reply rejecting (length (sent example_app)) = Inl (js ''offline'')
   \<and> isActive ''c2'' example_app
   \<and> toggleProduct rejecting ''c2'' 5 example_app
       = Inr (example_app\<lparr>recentProducts := [\<lparr>cardId = ''c2'', timestamp = 5\<rparr>],
                sent := [MoveCard ''c2'' ''L1''], frames := [FrameDetail, FrameDetail],
                toasts := [ErrorToast (js ''offline'')]\<rparr>)
   \<and> toggleCardActive rejecting ''c2'' 5 example_app
       = Inr (example_app\<lparr>sent := [MoveCard ''c2'' ''L1''],
                frames := [FrameCurrentView, FrameCurrentView],
                toasts := [ErrorToast (js ''offline'')]\<rparr>)
   \<and> listOf ''c2'' (example_app\<lparr>recentProducts := [\<lparr>cardId = ''c2'', timestamp = 5\<rparr>],
                sent := [MoveCard ''c2'' ''L1''], frames := [FrameDetail, FrameDetail],
                toasts := [ErrorToast (js ''offline'')]\<rparr>) = Some ''L2''"
  using toggle_rollback [of rejecting example_app "js ''offline''" "''c2''" 5
      "example_app\<lparr>recentProducts := [\<lparr>cardId = ''c2'', timestamp = 5\<rparr>],
                sent := [MoveCard ''c2'' ''L1''], frames := [FrameDetail, FrameDetail],
                toasts := [ErrorToast (js ''offline'')]\<rparr>"
      "example_app\<lparr>sent := [MoveCard ''c2'' ''L1''],
                frames := [FrameCurrentView, FrameCurrentView],
                toasts := [ErrorToast (js ''offline'')]\<rparr>"]
  by (simp add: isActive_def listOf_def example_app_def toggleCardActive_def toggleProduct_def
      addToRecentProducts_def rejecting_def
      leche_def pan_def cafe_def active_list_def catalog_list_def Let_def)

subsection \<open>Entering a view\<close>

text \<open>
  C7, as stated, fails for the shopping mode: \<open>showShoppingMode\<close> does not assign
  \<open>searchQuery\<close>. A refresh is started in the shopping mode; while the board loads, the
  user goes back to the stores, opens a store and types a search; the load fails. The
  follow-up of the refresh then enters the shopping mode, and the search text is still
  the text that was typed.
\<close>

theorem entering_views_counterexample:
  "currentView shopping_app = Shopping
   \<and> refresh shopping_app = ReenterShopping
   \<and> currentView browsing_app = Detail
   \<and> searchQuery browsing_app = js ''le''
   \<and> js ''le'' \<noteq> []
   \<and> currentView (fst (refreshed rejecting (Inl (js ''offline'')) ReenterShopping browsing_app))
       = Shopping
   \<and> searchQuery (fst (refreshed rejecting (Inl (js ''offline'')) ReenterShopping browsing_app))
       = js ''le''
   \<and> searchQuery (fst (showShoppingMode browsing_app)) = js ''le''"
  by (simp add: shopping_app_def browsing_app_def refresh_def refreshed_def loadBoard_def
      typeSearch_def showShoppingMode_def showStoreDetail_def showStoreCards_def
      example_app_def js_def Let_def)

text \<open>
  C7, amended. Entering the Stores view (\<open>showStoreCards\<close>) or a Detail view
  (\<open>showStoreDetail\<close>) clears the search text, and what is rendered is the rendering of
  the state with the text cleared. Entering the Shopping view (\<open>showShoppingMode\<close>)
  leaves the search text as it is; it resets the selected store and renders the store
  selector.
\<close>

theorem entering_views:
  "(showStoreCards s = (s1, r1) \<longrightarrow>
      currentView s1 = Stores \<and> searchQuery s1 = [] \<and> r1 = renderStoreCards s1)
   \<and> (showStoreDetail storeLabel s = (s2, r2) \<longrightarrow>
      currentView s2 = Detail \<and> currentStore s2 = Some storeLabel \<and> searchQuery s2 = []
      \<and> r2 = renderStoreDetail s2 storeLabel)
   \<and> (showShoppingMode s = (s3, r3) \<longrightarrow>
      currentView s3 = Shopping \<and> selectedStore s3 = None \<and> searchQuery s3 = searchQuery s
      \<and> r3 = renderStoreSelector s3)"
  by (auto simp: showStoreCards_def showStoreDetail_def showShoppingMode_def Let_def)

theorem entering_views_witness:
  "searchQuery searching_app = js ''le''
   \<and> snd (showStoreDetail mercadona searching_app) = DetailSections [pan] [leche, cafe]
   \<and> searchQuery (fst (showStoreDetail mercadona searching_app)) = []
   \<and> searchQuery (fst (showStoreCards searching_app)) = []
   \<and> searchQuery (fst (showShoppingMode searching_app)) = js ''le''
   \<and> snd (showShoppingMode searching_app) = StoreSelector [mercadona]"
  using entering_views [of searching_app "fst (showStoreCards searching_app)"
      "snd (showStoreCards searching_app)" mercadona "fst (showStoreDetail mercadona searching_app)"
      "snd (showStoreDetail mercadona searching_app)" "fst (showShoppingMode searching_app)"
      "snd (showShoppingMode searching_app)"]
  by (simp add: searching_app_def example_app_def showStoreDetail_def showShoppingMode_def
      showStoreCards_def renderStoreDetail_def availableCards_def renderStoreSelector_def
      getStoreNames_def example_config_def matchesQuery_def sortBy_def recentCompare_def
      leche_def pan_def cafe_def mercadona_def nevera_def catalog_list_def active_list_def
      js_def Let_def)

subsection \<open>Deleting all products\<close>

lemma deleteLoop_result:
  "deleteLoop svc cs (s, d, f) = (s', d', f') \<Longrightarrow>
   s' = s\<lparr>sent := sent s @ map (\<lambda>c. DeleteCard (card_id c)) cs\<rparr>
   \<and> d' + f' = d + f + length cs
   \<and> f' = f + length (filter (\<lambda>i. isl (delete_reply svc i))
                [length (sent s)..<length (sent s) + length cs])"
proof (induction cs arbitrary: s d f)
  case Nil
  then show ?case by simp
next
  case (Cons c cs)
  let ?s1 = "s\<lparr>sent := sent s @ [DeleteCard (card_id c)]\<rparr>"
  have up: "[length (sent s)..<length (sent s) + length (c # cs)]
            = length (sent s) # [length (sent ?s1)..<length (sent ?s1) + length cs]"
    using upt_conv_Cons [of "length (sent s)" "length (sent s) + Suc (length cs)"] by simp
  show ?case
  proof (cases "delete_reply svc (length (sent s))")
    case (Inl msg)
    then have "deleteLoop svc cs (?s1, d, f + 1) = (s', d', f')"
      using Cons.prems by simp
    from Cons.IH [OF this] show ?thesis
      unfolding up using Inl by simp
  next
    case (Inr u)
    then have "deleteLoop svc cs (?s1, d + 1, f) = (s', d', f')"
      using Cons.prems by simp
    from Cons.IH [OF this] show ?thesis
      unfolding up using Inr by simp
  qed
qed

text \<open>
  C9. After \<open>deleteAllProducts\<close> the cache of cards is empty, whatever the outcome of the
  deletions: one deletion is issued for each cached card, the failed ones are only
  counted and reported with the deleted ones, and every card is dropped from the cache,
  also those whose deletion failed and which the board still has.
\<close>

theorem delete_all_clears_cache:
  "cards (deleteAllProducts svc s) = []
   \<and> issuedSince s (deleteAllProducts svc s) = map (\<lambda>c. DeleteCard (card_id c)) (cards s)
   \<and> toasts (deleteAllProducts svc s)
       = toasts s @ [BusyToast, DeletedToast (length (cards s) - failedDeletions svc s)
                                   (failedDeletions svc s)]"
proof -
  obtain s1 d f
    where loop: "deleteLoop svc (cards s) (s\<lparr>toasts := toasts s @ [BusyToast]\<rparr>, 0, 0) = (s1, d, f)"
    by (metis prod_cases3)
  from deleteLoop_result [OF loop]
  have s1: "s1 = s\<lparr>toasts := toasts s @ [BusyToast],
                  sent := sent s @ map (\<lambda>c. DeleteCard (card_id c)) (cards s)\<rparr>"
    and sum: "d + f = length (cards s)" and f: "f = failedDeletions svc s"
    by (simp_all add: failedDeletions_def)
  have res: "deleteAllProducts svc s = s1\<lparr>cards := [], toasts := toasts s1 @ [DeletedToast d f]\<rparr>"
    by (simp add: deleteAllProducts_def loop)
  have d: "d = length (cards s) - failedDeletions svc s"
    using sum f by simp
  show ?thesis
    by (simp add: res s1 issuedSince_def d f)
qed

theorem delete_all_clears_cache_witness:
  "cards example_app = [leche, pan, cafe]
   \<and> cards (deleteAllProducts rejecting example_app) = []
   \<and> issuedSince example_app (deleteAllProducts rejecting example_app)
       = [DeleteCard ''c1'', DeleteCard ''c2'', DeleteCard ''c3'']
   \<and> toasts (deleteAllProducts rejecting example_app) = [BusyToast, DeletedToast 0 3]"
  using delete_all_clears_cache [of rejecting example_app]
  by (simp add: failedDeletions_def example_app_def rejecting_def leche_def pan_def cafe_def
      upt_conv_Cons)

subsection \<open>Board bootstrap\<close>

lemma createLabels_effect:
  "createLabels svc defs s = (s', e) \<Longrightarrow>
   \<exists>k ls. sent s' = sent s @ take k (map labelRequest defs) \<and> labels s' = labels s @ ls
     \<and> config s' = config s"
proof (induction defs arbitrary: s)
  case Nil
  then show ?case by auto
next
  case (Cons d defs)
  obtain name color where d: "d = (name, color)" by (cases d)
  let ?s1 = "s\<lparr>sent := sent s @ [CreateLabel name color]\<rparr>"
  show ?case
  proof (cases "label_reply svc (length (sent s))")
    case (Inl msg)
    then have "s' = ?s1" using Cons.prems d by (simp add: Let_def)
    then have "sent s' = sent s @ take 1 (map labelRequest (d # defs)) \<and> labels s' = labels s @ []
        \<and> config s' = config s"
      by (simp add: d)
    then show ?thesis by blast
  next
    case (Inr l)
    then have "createLabels svc defs (?s1\<lparr>labels := labels ?s1 @ [l]\<rparr>) = (s', e)"
      using Cons.prems d by (simp add: Let_def)
    from Cons.IH [OF this] obtain k ls
      where "sent s' = sent s @ [CreateLabel name color] @ take k (map labelRequest defs)"
        and "labels s' = labels s @ [l] @ ls" and "config s' = config s"
      by auto
    then have "sent s' = sent s @ take (Suc k) (map labelRequest (d # defs))
        \<and> labels s' = labels s @ ([l] @ ls) \<and> config s' = config s"
      by (simp add: d)
    then show ?thesis by blast
  qed
qed

lemma ensureAllProductsList_effect:
  "ensureAllProductsList svc s = (s', e) \<Longrightarrow>
   \<exists>rs. sent s' = sent s @ rs \<and> list_all isCreateList rs \<and> labels s' = labels s \<and> config s' = config s
     \<and> (allProductsList s \<noteq> None \<longrightarrow> s' = s \<and> e = None)"
  by (auto simp: ensureAllProductsList_def Let_def split: option.splits sum.splits)

lemma ensureActiveList_effect:
  "ensureActiveList svc s = (s', e) \<Longrightarrow>
   \<exists>rs. sent s' = sent s @ rs \<and> list_all isCreateList rs \<and> labels s' = labels s \<and> config s' = config s
     \<and> (activeList s \<noteq> None \<longrightarrow> s' = s \<and> e = None)"
  by (auto simp: ensureActiveList_def Let_def split: option.splits sum.splits)

lemma ensureLocationLabels_effect:
  "ensureLocationLabels svc s = (s', e) \<Longrightarrow>
   \<exists>k ls. sent s' = sent s @ take k (map labelRequest (locationRequests s))
     \<and> labels s' = labels s @ ls \<and> config s' = config s
     \<and> (list_ex (hasColorIn locationColors) (labels s) \<longrightarrow> s' = s \<and> e = None)"
proof (cases "filter (hasColorIn locationColors) (labels s) = []")
  case True
  then have "createLabels svc (locationRequests s) s = (s', e)" if "ensureLocationLabels svc s = (s', e)"
    using that by (simp add: ensureLocationLabels_def)
  moreover have "\<not> list_ex (hasColorIn locationColors) (labels s)"
    using True by (simp add: list_ex_iff filter_empty_conv)
  ultimately show "ensureLocationLabels svc s = (s', e) \<Longrightarrow> ?thesis"
    using createLabels_effect [of svc "locationRequests s" s s' e] by auto
next
  case False
  then have "list_ex (hasColorIn locationColors) (labels s)"
    by (simp add: list_ex_iff filter_empty_conv)
  moreover assume "ensureLocationLabels svc s = (s', e)"
  then have "s' = s \<and> e = None" using False by (simp add: ensureLocationLabels_def)
  then have "sent s' = sent s @ take 0 (map labelRequest (locationRequests s)) \<and> labels s' = labels s @ []
     \<and> config s' = config s \<and> s' = s \<and> e = None" by simp
  then show ?thesis by blast
qed

lemma ensureStoreLabels_effect:
  "ensureStoreLabels svc s = (s', e) \<Longrightarrow>
   \<exists>k ls. sent s' = sent s @ take k (map labelRequest (storeRequests s))
     \<and> labels s' = labels s @ ls \<and> config s' = config s
     \<and> (list_ex (hasColorIn storeColors) (labels s) \<longrightarrow> s' = s \<and> e = None)"
proof (cases "filter (hasColorIn storeColors) (labels s) = []")
  case True
  then have "createLabels svc (storeRequests s) s = (s', e)" if "ensureStoreLabels svc s = (s', e)"
    using that by (simp add: ensureStoreLabels_def)
  moreover have "\<not> list_ex (hasColorIn storeColors) (labels s)"
    using True by (simp add: list_ex_iff filter_empty_conv)
  ultimately show "ensureStoreLabels svc s = (s', e) \<Longrightarrow> ?thesis"
    using createLabels_effect [of svc "storeRequests s" s s' e] by auto
next
  case False
  then have "list_ex (hasColorIn storeColors) (labels s)"
    by (simp add: list_ex_iff filter_empty_conv)
  moreover assume "ensureStoreLabels svc s = (s', e)"
  then have "s' = s \<and> e = None" using False by (simp add: ensureStoreLabels_def)
  then have "sent s' = sent s @ take 0 (map labelRequest (storeRequests s)) \<and> labels s' = labels s @ []
     \<and> config s' = config s \<and> s' = s \<and> e = None" by simp
  then show ?thesis by blast
qed

lemma andThen_effect:
  assumes "andThen (s1, e1) f = (s', e)"
    and "\<And>s'' e''. f s1 = (s'', e'') \<Longrightarrow> P s''"
    and "P s1"
  shows "P s'"
  using assms by (cases e1) (auto simp: andThen_def)

lemma setupBoardStructure_effect:
  assumes run: "setupBoardStructure svc s = (s', e)"
  shows "\<exists>rs ps qs. sent s' = sent s @ rs @ ps @ qs \<and> list_all isCreateList rs
           \<and> prefix ps (map labelRequest (locationRequests s))
           \<and> prefix qs (map labelRequest (storeRequests s))
           \<and> (hasLocationLabels s \<longrightarrow> ps = [])
           \<and> (hasStoreLabels s \<longrightarrow> qs = [])
           \<and> (hasLocationLabels s \<and> hasStoreLabels s \<longrightarrow> labels s' = labels s)"
proof -
  obtain s1 e1 where r1: "ensureAllProductsList svc s = (s1, e1)"
    by (cases "ensureAllProductsList svc s")
  obtain s2 e2 where r2: "andThen (s1, e1) (ensureActiveList svc) = (s2, e2)"
    by (cases "andThen (s1, e1) (ensureActiveList svc)")
  obtain s3 e3 where r3: "andThen (s2, e2) (ensureLocationLabels svc) = (s3, e3)"
    by (cases "andThen (s2, e2) (ensureLocationLabels svc)")
  have r4: "andThen (s3, e3) (ensureStoreLabels svc) = (s', e)"
    using run by (simp add: setupBoardStructure_def r1 r2 r3)
  from ensureAllProductsList_effect [OF r1] obtain rs1
    where s1: "sent s1 = sent s @ rs1" "list_all isCreateList rs1" "labels s1 = labels s"
      "config s1 = config s"
    by blast
  have "\<exists>rs. sent s2 = sent s1 @ rs \<and> list_all isCreateList rs \<and> labels s2 = labels s1
      \<and> config s2 = config s1"
    by (rule andThen_effect [OF r2]) (use ensureActiveList_effect in blast, simp)
  then obtain rs2
    where s2: "sent s2 = sent s1 @ rs2" "list_all isCreateList rs2" "labels s2 = labels s1"
      "config s2 = config s1"
    by blast
  have "\<exists>ps ls. sent s3 = sent s2 @ ps \<and> prefix ps (map labelRequest (locationRequests s2))
      \<and> labels s3 = labels s2 @ ls \<and> config s3 = config s2
      \<and> (hasLocationLabels s2 \<longrightarrow> ps = [] \<and> ls = [])"
  proof (rule andThen_effect [OF r3])
    fix s'' e''
    assume "ensureLocationLabels svc s2 = (s'', e'')"
    from ensureLocationLabels_effect [OF this] obtain k ls
      where *: "sent s'' = sent s2 @ take k (map labelRequest (locationRequests s2))"
        "labels s'' = labels s2 @ ls" "config s'' = config s2"
        "list_ex (hasColorIn locationColors) (labels s2) \<longrightarrow> s'' = s2"
      by blast
    show "\<exists>ps ls. sent s'' = sent s2 @ ps \<and> prefix ps (map labelRequest (locationRequests s2))
      \<and> labels s'' = labels s2 @ ls \<and> config s'' = config s2
      \<and> (hasLocationLabels s2 \<longrightarrow> ps = [] \<and> ls = [])"
    proof (cases "hasLocationLabels s2")
      case True
      then have "s'' = s2" using * by (simp add: hasLocationLabels_def)
      then show ?thesis by simp
    next
      case False
      then show ?thesis using * take_is_prefix by blast
    qed
  qed simp
  then obtain ps ls3
    where s3: "sent s3 = sent s2 @ ps" "prefix ps (map labelRequest (locationRequests s2))"
      "labels s3 = labels s2 @ ls3" "config s3 = config s2"
      "hasLocationLabels s2 \<longrightarrow> ps = [] \<and> ls3 = []"
    by blast
  have "\<exists>qs ls. sent s' = sent s3 @ qs \<and> prefix qs (map labelRequest (storeRequests s3))
      \<and> labels s' = labels s3 @ ls \<and> (hasStoreLabels s3 \<longrightarrow> qs = [] \<and> ls = [])"
  proof (rule andThen_effect [OF r4])
    fix s'' e''
    assume "ensureStoreLabels svc s3 = (s'', e'')"
    from ensureStoreLabels_effect [OF this] obtain k ls
      where *: "sent s'' = sent s3 @ take k (map labelRequest (storeRequests s3))"
        "labels s'' = labels s3 @ ls"
        "list_ex (hasColorIn storeColors) (labels s3) \<longrightarrow> s'' = s3"
      by blast
    show "\<exists>qs ls. sent s'' = sent s3 @ qs \<and> prefix qs (map labelRequest (storeRequests s3))
      \<and> labels s'' = labels s3 @ ls \<and> (hasStoreLabels s3 \<longrightarrow> qs = [] \<and> ls = [])"
    proof (cases "hasStoreLabels s3")
      case True
      then have "s'' = s3" using * by (simp add: hasStoreLabels_def)
      then show ?thesis by simp
    next
      case False
      then show ?thesis using * take_is_prefix by blast
    qed
  qed simp
  then obtain qs ls4
    where s4: "sent s' = sent s3 @ qs" "prefix qs (map labelRequest (storeRequests s3))"
      "labels s' = labels s3 @ ls4" "hasStoreLabels s3 \<longrightarrow> qs = [] \<and> ls4 = []"
    by blast
  have loc: "hasLocationLabels s2 = hasLocationLabels s"
    by (simp add: hasLocationLabels_def s2 s1)
  have store: "hasStoreLabels s \<Longrightarrow> hasStoreLabels s3"
    by (auto simp: hasStoreLabels_def s3 s2 s1 list_ex_iff)
  have "sent s' = sent s @ (rs1 @ rs2) @ ps @ qs"
    by (simp add: s4 s3 s2 s1)
  moreover have "list_all isCreateList (rs1 @ rs2)"
    using s1 s2 by simp
  moreover have "prefix ps (map labelRequest (locationRequests s))"
    using s3(2) by (simp add: locationRequests_def s2 s1)
  moreover have "prefix qs (map labelRequest (storeRequests s))"
    using s4(2) by (simp add: storeRequests_def s3 s2 s1)
  moreover have "hasLocationLabels s \<longrightarrow> ps = []"
    using s3(5) loc by simp
  moreover have "hasStoreLabels s \<longrightarrow> qs = []"
    using s4(4) store by blast
  moreover have "hasLocationLabels s \<and> hasStoreLabels s \<longrightarrow> labels s' = labels s"
    using s3(5) s4(4) loc store by (auto simp: s4 s3 s2 s1)
  ultimately show ?thesis by blast
qed

lemma filter_isCreateLabel_lists: "list_all isCreateList rs \<Longrightarrow> filter isCreateLabel rs = []"
  by (induction rs) (auto elim: isCreateList.elims)

lemma filter_isCreateLabel_prefix:
  "prefix ps (map labelRequest defs) \<Longrightarrow> filter isCreateLabel ps = ps"
proof -
  assume "prefix ps (map labelRequest defs)"
  then have "set ps \<subseteq> set (map labelRequest defs)"
    by (rule set_mono_prefix)
  then have "\<forall>r\<in>set ps. isCreateLabel r" by auto
  then show ?thesis by (simp add: filter_id_conv)
qed

lemma loadBoard_configured:
  assumes "find (\<lambda>l. list_name l = allProductsName (config s)) lists' \<noteq> None"
    and "find (\<lambda>l. list_name l = activeListName (config s)) lists' \<noteq> None"
  shows "sent (fst (loadBoard svc (Inr (lists', cards', labels')) s)) = sent s"
  using assms by (auto simp: loadBoard_def showStoreCards_def Let_def)

lemma setupBoardStructure_configured:
  assumes "allProductsList s \<noteq> None" and "activeList s \<noteq> None"
    and "hasLocationLabels s" and "hasStoreLabels s"
  shows "setupBoardStructure svc s = (s, None)"
  using assms
  by (auto simp: setupBoardStructure_def andThen_def ensureAllProductsList_def
      ensureActiveList_def ensureLocationLabels_def ensureStoreLabels_def
      hasLocationLabels_def hasStoreLabels_def list_ex_iff filter_empty_conv)

text \<open>
  C2, as stated, fails: the bootstrap does not tell the label groups apart by name. On a
  board without the active list, whose only label has the name of the configured store
  Mercadona and the colour green, the store group (by name) is present in part, and yet
  the bootstrap creates a label for every configured store, Mercadona included.
\<close>

theorem bootstrap_idempotent_counterexample:
  "isStoreLabel example_app green_mercadona
   \<and> issuedSince example_app
        (fst (loadBoard accepting (Inr ([catalog_list], [], [green_mercadona])) example_app))
      = [CreateList (js ''Lista Activa'') 2, CreateLabel (js ''Mercadona'') ''orange'',
         CreateLabel (js ''Farmacia'') ''red'']"
  by (simp add: isStoreLabel_def getStoreNames_def example_app_def example_config_def
      green_mercadona_def issuedSince_def loadBoard_def setupBoardStructure_def andThen_def
      ensureAllProductsList_def ensureActiveList_def ensureLocationLabels_def
      ensureStoreLabels_def hasColorIn_def locationColors_def storeColors_def
      locationRequests_def storeRequests_def accepting_def catalog_list_def showStoreCards_def
      js_def Let_def)

text \<open>
  C2, amended. When both lists are found by name, loading the board issues no call at
  all; and \<open>setupBoardStructure\<close> changes nothing when both lists are set and each colour
  group has a label. The label groups are told apart by colour: when some cached label
  has a location colour and some has a store colour, no label is created; when some
  cached label has a location colour, only labels of the configured stores are created;
  when some cached label has a store colour, only labels of the configured locations
  are created. A colour group that is present in part is not completed.
\<close>

theorem bootstrap_idempotent:
  "(find (\<lambda>l. list_name l = allProductsName (config s)) lists' \<noteq> None
      \<and> find (\<lambda>l. list_name l = activeListName (config s)) lists' \<noteq> None \<longrightarrow>
      issuedSince s (fst (loadBoard svc (Inr (lists', cards', labels')) s)) = [])
   \<and> (allProductsList s \<noteq> None \<and> activeList s \<noteq> None \<and> hasLocationLabels s
      \<and> hasStoreLabels s \<longrightarrow> setupBoardStructure svc s = (s, None))
   \<and> (hasLocationLabels s \<and> hasStoreLabels s \<longrightarrow>
      filter isCreateLabel (issuedSince s (fst (setupBoardStructure svc s))) = []
      \<and> labels (fst (setupBoardStructure svc s)) = labels s)
   \<and> (hasLocationLabels s \<longrightarrow>
      prefix (filter isCreateLabel (issuedSince s (fst (setupBoardStructure svc s))))
        (map labelRequest (storeRequests s)))
   \<and> (hasStoreLabels s \<longrightarrow>
      prefix (filter isCreateLabel (issuedSince s (fst (setupBoardStructure svc s))))
        (map labelRequest (locationRequests s)))"
proof -
  obtain s' e where run: "setupBoardStructure svc s = (s', e)"
    by (cases "setupBoardStructure svc s")
  from setupBoardStructure_effect [OF run] obtain rs ps qs
    where sent: "sent s' = sent s @ rs @ ps @ qs" and rs: "list_all isCreateList rs"
      and ps: "prefix ps (map labelRequest (locationRequests s))"
      and qs: "prefix qs (map labelRequest (storeRequests s))"
      and loc: "hasLocationLabels s \<longrightarrow> ps = []"
      and store: "hasStoreLabels s \<longrightarrow> qs = []"
      and same: "hasLocationLabels s \<and> hasStoreLabels s \<longrightarrow> labels s' = labels s"
    by blast
  have issued: "filter isCreateLabel (issuedSince s s') = ps @ qs"
    using filter_isCreateLabel_lists [OF rs] filter_isCreateLabel_prefix [OF ps]
      filter_isCreateLabel_prefix [OF qs]
    by (simp add: issuedSince_def sent)
  show ?thesis
    using issued ps qs loc store same loadBoard_configured [of s lists' svc cards' labels']
      setupBoardStructure_configured [of s svc]
    by (auto simp: run issuedSince_def)
qed

theorem bootstrap_idempotent_witness:
  "hasLocationLabels example_app \<and> hasStoreLabels example_app
   \<and> setupBoardStructure rejecting example_app = (example_app, None)
   \<and> issuedSince example_app
        (fst (loadBoard rejecting (Inr ([catalog_list, active_list], [leche], [])) example_app)) = []
   \<and> hasLocationLabels unconfigured_app
   \<and> issuedSince unconfigured_app (fst (setupBoardStructure accepting unconfigured_app))
       = [CreateList (js ''Lista Activa'') 2, CreateLabel (js ''Mercadona'') ''orange'',
          CreateLabel (js ''Farmacia'') ''red'']"
  using bootstrap_idempotent [of example_app "[catalog_list, active_list]" rejecting "[leche]" "[]"]
    bootstrap_idempotent [of unconfigured_app "[catalog_list, active_list]" accepting "[leche]" "[]"]
  by (simp add: hasLocationLabels_def hasStoreLabels_def example_app_def example_config_def
      unconfigured_app_def issuedSince_def loadBoard_def setupBoardStructure_def andThen_def
      ensureAllProductsList_def ensureActiveList_def ensureLocationLabels_def
      ensureStoreLabels_def hasColorIn_def locationColors_def storeColors_def
      locationRequests_def storeRequests_def accepting_def rejecting_def catalog_list_def
      active_list_def mercadona_def nevera_def showStoreCards_def js_def Let_def)

subsection \<open>The order of the available products\<close>




















subsection \<open>Prefix search\<close>

lemma split_ws_Nil:
  "dropWhile (\<lambda>c. \<not> isSpace c) str = [] \<Longrightarrow> split_ws str = [str]"
  by (subst split_ws.simps) (simp only: list.case)

lemma split_ws_Cons:
  "dropWhile (\<lambda>c. \<not> isSpace c) str = x # r \<Longrightarrow>
   split_ws str = takeWhile (\<lambda>c. \<not> isSpace c) str # split_ws (dropWhile isSpace r)"
  by (subst split_ws.simps) (simp only: list.case)

lemma split_ws_nonempty: "split_ws str \<noteq> []"
  by (cases "dropWhile (\<lambda>c. \<not> isSpace c) str") (simp_all add: split_ws_Nil split_ws_Cons)

lemma dropWhile_Cons_space:
  "dropWhile (\<lambda>c. \<not> isSpace c) str = x # r \<Longrightarrow> isSpace x"
  using hd_dropWhile [of "\<lambda>c. \<not> isSpace c" str] by simp

lemma split_ws_words: "w \<in> set (split_ws str) \<Longrightarrow> isWordOf w str"
proof (induction str arbitrary: w rule: split_ws.induct)
  case (1 str)
  show ?case
  proof (cases "dropWhile (\<lambda>c. \<not> isSpace c) str")
    case Nil
    then have "w = str" using "1.prems" by (simp add: split_ws_Nil)
    moreover have "\<forall>c\<in>set str. \<not> isSpace c"
      using Nil by (simp add: dropWhile_eq_Nil_conv)
    ultimately have "str = [] @ w @ [] \<and> (\<forall>c\<in>set w. \<not> isSpace c)" by simp
    then show ?thesis unfolding isWordOf_def by blast
  next
    case (Cons x r)
    let ?head = "takeWhile (\<lambda>c. \<not> isSpace c) str"
    let ?sp = "takeWhile isSpace r"
    let ?r' = "dropWhile isSpace r"
    have x: "isSpace x" by (rule dropWhile_Cons_space [OF Cons])
    have str: "str = ?head @ x # r"
      using takeWhile_dropWhile_id [of "\<lambda>c. \<not> isSpace c" str] Cons by simp
    have head: "\<forall>c\<in>set ?head. \<not> isSpace c"
      by (auto dest: set_takeWhileD)
    from "1.prems" have "w = ?head \<or> w \<in> set (split_ws ?r')"
      by (simp add: split_ws_Cons [OF Cons])
    then show ?thesis
    proof
      assume "w = ?head"
      then have "str = [] @ w @ (x # r) \<and> (\<forall>c\<in>set w. \<not> isSpace c) \<and> isSpace (hd (x # r))"
        using str head x by simp
      then show ?thesis unfolding isWordOf_def by blast
    next
      assume "w \<in> set (split_ws ?r')"
      then have "isWordOf w ?r'" by (rule "1.IH" [OF Cons])
      then obtain pre post where w: "?r' = pre @ w @ post" "\<forall>c\<in>set w. \<not> isSpace c"
        "pre = [] \<or> isSpace (last pre)" "post = [] \<or> isSpace (hd post)"
        unfolding isWordOf_def by blast
      have r: "r = ?sp @ ?r'" by simp
      have sp: "\<forall>c\<in>set ?sp. isSpace c" by (auto dest: set_takeWhileD)
      let ?pre = "?head @ x # ?sp @ pre"
      have "str = ?pre @ w @ post"
        using str r w(1) by (metis append.assoc append_Cons)
      moreover have "isSpace (last ?pre)"
      proof (cases "pre = []")
        case True
        have "last (x # ?sp) \<in> set (x # ?sp)" by (rule last_in_set) simp
        then have "isSpace (last (x # ?sp))" using x sp by auto
        then show ?thesis using True by simp
      next
        case False
        then show ?thesis using w(3) by simp
      qed
      ultimately show ?thesis
        unfolding isWordOf_def using w(2,4) by blast
    qed
  qed
qed


lemma takeWhile_word:
  assumes "\<forall>c\<in>set w. \<not> isSpace c" and "post = [] \<or> isSpace (hd post)"
  shows "takeWhile (\<lambda>c. \<not> isSpace c) (w @ post) = w"
proof -
  have "takeWhile (\<lambda>c. \<not> isSpace c) post = []"
    using assms(2) by (cases post) auto
  then show ?thesis using assms(1) by (simp add: takeWhile_append2)
qed

lemma words_split_ws: "isWordOf w str \<Longrightarrow> w \<noteq> [] \<Longrightarrow> w \<in> set (split_ws str)"
proof (induction str rule: split_ws.induct)
  case (1 str)
  from "1.prems"(1) obtain pre post
    where w: "str = pre @ w @ post" "\<forall>c\<in>set w. \<not> isSpace c"
      "pre = [] \<or> isSpace (last pre)" "post = [] \<or> isSpace (hd post)"
    unfolding isWordOf_def by blast
  show ?case
  proof (cases "dropWhile (\<lambda>c. \<not> isSpace c) str")
    case Nil
    then have nosp: "\<forall>c\<in>set str. \<not> isSpace c"
      by (simp add: dropWhile_eq_Nil_conv)
    have "pre = []"
    proof (rule ccontr)
      assume "pre \<noteq> []"
      then have "last pre \<in> set str" "isSpace (last pre)" using w(1,3) by auto
      then show False using nosp by blast
    qed
    moreover have "post = []"
    proof (rule ccontr)
      assume "post \<noteq> []"
      then have "hd post \<in> set str" "isSpace (hd post)" using w(1,4) by auto
      then show False using nosp by blast
    qed
    ultimately have "w = str" using w(1) by simp
    then show ?thesis by (simp add: split_ws_Nil [OF Nil])
  next
    case (Cons x r)
    let ?head = "takeWhile (\<lambda>c. \<not> isSpace c) str"
    let ?sp = "takeWhile isSpace r"
    let ?r' = "dropWhile isSpace r"
    have x: "isSpace x" by (rule dropWhile_Cons_space [OF Cons])
    have str: "str = ?head @ x # r"
      using takeWhile_dropWhile_id [of "\<lambda>c. \<not> isSpace c" str] Cons by simp
    have head: "\<forall>c\<in>set ?head. \<not> isSpace c"
      by (auto dest: set_takeWhileD)
    show ?thesis
    proof (cases "pre = []")
      case True
      then have "?head = w"
        using takeWhile_word [OF w(2,4)] w(1) by simp
      then show ?thesis by (simp add: split_ws_Cons [OF Cons])
    next
      case False
      then have lastpre: "isSpace (last pre)" using w(3) by simp
      have "?head @ (x # r) = pre @ (w @ post)"
        using str w(1) by simp
      then obtain us where "?head = pre @ us \<and> us @ x # r = w @ post
          \<or> ?head @ us = pre \<and> x # r = us @ w @ post"
        unfolding append_eq_append_conv2 by blast
      then have pre: "?head @ us = pre" and xr: "x # r = us @ w @ post"
      proof -
        assume alt: "?head = pre @ us \<and> us @ x # r = w @ post
          \<or> ?head @ us = pre \<and> x # r = us @ w @ post"
        have "\<not> (?head = pre @ us)"
        proof
          assume h: "?head = pre @ us"
          have "last pre \<in> set (pre @ us)" using False by simp
          then have "last pre \<in> set ?head" using h by simp
          then show False using head lastpre by blast
        qed
        then show "?head @ us = pre" and "x # r = us @ w @ post" using alt by blast+
      qed
      have "us \<noteq> []"
      proof
        assume "us = []"
        then have "pre = ?head" using pre by simp
        then have "last pre \<in> set ?head" using False by (metis last_in_set)
        then show False using head lastpre by blast
      qed
      then obtain p1 where us: "us = x # p1" and r: "r = p1 @ w @ post"
        using xr by (cases us) auto
      have "?sp @ ?r' = p1 @ (w @ post)" using r by simp
      then obtain vs where alt: "?sp = p1 @ vs \<and> vs @ ?r' = w @ post
          \<or> ?sp @ vs = p1 \<and> ?r' = vs @ w @ post"
        unfolding append_eq_append_conv2 by blast
      have sp: "\<forall>c\<in>set ?sp. isSpace c" by (auto dest: set_takeWhileD)
      have "\<exists>pre'. ?r' = pre' @ w @ post \<and> (pre' = [] \<or> isSpace (last pre'))"
      proof (cases "?sp @ vs = p1 \<and> ?r' = vs @ w @ post")
        case True
        have "vs = [] \<or> isSpace (last vs)"
        proof (cases "vs = []")
          case False
          then have "last pre = last vs" using pre us True by auto
          then show ?thesis using lastpre by simp
        qed simp
        then show ?thesis using True by blast
      next
        case False
        then have a: "?sp = p1 @ vs" and b: "vs @ ?r' = w @ post" using alt by blast+
        have "vs = []"
        proof (rule ccontr)
          assume ne: "vs \<noteq> []"
          then have "hd vs = hd w" using b "1.prems"(2)
            by (metis hd_append2)
          moreover have "hd vs \<in> set ?sp" using a ne by simp
          moreover have "hd w \<in> set w" using "1.prems"(2) by simp
          ultimately show False using sp w(2) by metis
        qed
        then have "?r' = [] @ w @ post" using b by simp
        then show ?thesis by blast
      qed
      then have "isWordOf w ?r'"
        unfolding isWordOf_def using w(2,4) by blast
      then have "w \<in> set (split_ws ?r')"
        using "1.IH" [OF Cons] "1.prems"(2) by blast
      then show ?thesis by (simp add: split_ws_Cons [OF Cons])
    qed
  qed
qed


lemma some_word: "\<exists>w. isWordOf w str"
  using split_ws_words [of "hd (split_ws str)" str] split_ws_nonempty [of str]
  by (metis hd_in_set)

lemma matches_iff_word:
  "list_ex (\<lambda>word. prefix query word) (split_ws str)
   \<longleftrightarrow> (\<exists>w. isWordOf w str \<and> prefix query w)"
proof
  assume "list_ex (\<lambda>word. prefix query word) (split_ws str)"
  then obtain w where "w \<in> set (split_ws str)" "prefix query w"
    by (auto simp: list_ex_iff)
  then show "\<exists>w. isWordOf w str \<and> prefix query w"
    using split_ws_words by blast
next
  assume "\<exists>w. isWordOf w str \<and> prefix query w"
  then obtain w where w: "isWordOf w str" "prefix query w" by blast
  show "list_ex (\<lambda>word. prefix query word) (split_ws str)"
  proof (cases "w = []")
    case True
    then have "query = []" using w(2) by simp
    then show ?thesis
      using split_ws_nonempty [of str] by (cases "split_ws str") simp_all
  next
    case False
    then have "w \<in> set (split_ws str)" using w(1) by (rule words_split_ws [rotated])
    then show ?thesis using w(2) by (auto simp: list_ex_iff)
  qed
qed

lemmas normalize_defs = normalizeString_def normalizeNFD_def nfd_unit_def isCombiningMark_def
  toLowerCase_def lower_unit_def

text \<open>
  C6, as stated, fails for a query with white space around it: the query is trimmed
  before it is normalized. The query " le" matches the product "Leche Entera", although
  the normalized query, which keeps its leading space, is a prefix of neither word of
  the normalized name.
\<close>

theorem prefix_search_counterexample:
  "matchesQuery (js '' le'') (js ''Leche Entera'')
   \<and> split_ws (normalizeString (js ''Leche Entera'')) = [js ''leche'', js ''entera'']
   \<and> normalizeString (js '' le'') = js '' le''
   \<and> \<not> prefix (js '' le'') (js ''leche'') \<and> \<not> prefix (js '' le'') (js ''entera'')"
  by (simp add: matchesQuery_def normalize_defs trim_def split_ws.simps isSpace_def js_def)

text \<open>
  C6, amended. A product matches a query if and only if the query, trimmed and then
  normalized, is a prefix of some whitespace-delimited word of the normalized product
  name. The query "le" matches a product named "Leche Entera", and the query "che" does
  not.
\<close>

theorem prefix_search:
  "(matchesQuery q name \<longleftrightarrow>
      (\<exists>w. isWordOf w (normalizeString name) \<and> prefix (normalizeString (trim q)) w))
   \<and> matchesQuery (js ''le'') (js ''Leche Entera'')
   \<and> \<not> matchesQuery (js ''che'') (js ''Leche Entera'')"
proof (intro conjI)
  show "matchesQuery q name \<longleftrightarrow>
      (\<exists>w. isWordOf w (normalizeString name) \<and> prefix (normalizeString (trim q)) w)"
  proof (cases "q = []")
    case True
    then have "normalizeString (trim q) = []"
      by (simp add: trim_def normalizeString_def normalizeNFD_def toLowerCase_def)
    then show ?thesis
      using True some_word [of "normalizeString name"] by (simp add: matchesQuery_def)
  next
    case False
    then show ?thesis
      by (simp add: matchesQuery_def Let_def matches_iff_word)
  qed
  show "matchesQuery (js ''le'') (js ''Leche Entera'')"
    by (simp add: matchesQuery_def normalize_defs trim_def split_ws.simps isSpace_def js_def)
  show "\<not> matchesQuery (js ''che'') (js ''Leche Entera'')"
    by (simp add: matchesQuery_def normalize_defs trim_def split_ws.simps isSpace_def js_def)
qed

theorem prefix_search_witness:
  "isWordOf (js ''leche'') (normalizeString (js ''Leche Entera''))
   \<and> prefix (normalizeString (trim (js '' le ''))) (js ''leche'')
   \<and> matchesQuery (js '' le '') (js ''Leche Entera'')"
proof -
  have "normalizeString (js ''Leche Entera'') = [] @ js ''leche'' @ js '' entera''"
    by (simp add: normalize_defs js_def)
  moreover have "\<forall>c\<in>set (js ''leche''). \<not> isSpace c" and "isSpace (hd (js '' entera''))"
    by (simp_all add: isSpace_def js_def)
  ultimately have word: "isWordOf (js ''leche'') (normalizeString (js ''Leche Entera''))"
    unfolding isWordOf_def by blast
  have pre: "prefix (normalizeString (trim (js '' le ''))) (js ''leche'')"
    by (simp add: normalize_defs trim_def isSpace_def js_def)
  from word pre show ?thesis
    using prefix_search [of "js '' le ''" "js ''Leche Entera''"] by blast
qed

subsection \<open>Import\<close>

lemma resolveLabels_existing:
  "find (\<lambda>l. label_name l = refName r) (labels s) = Some l \<Longrightarrow>
   resolveLabels svc dflt (r # rs) (s, n, ids) = resolveLabels svc dflt rs (s, n, ids @ [label_id l])"
  by simp

lemma resolveLabels_created:
  assumes "\<forall>l\<in>set (labels s). label_name l \<noteq> refName r"
    and "label_reply svc (length (sent s)) = Inr l'"
  shows "resolveLabels svc dflt (r # rs) (s, n, ids)
         = resolveLabels svc dflt rs
             (s\<lparr>sent := sent s @ [CreateLabel (refName r) (refColor dflt r)],
                labels := labels s @ [l']\<rparr>, n + 1, ids @ [label_id l'])"
proof -
  have "find (\<lambda>l. label_name l = refName r) (labels s) = None"
    using assms(1) by (simp add: find_None_iff)
  then show ?thesis using assms(2) by (simp add: Let_def)
qed

lemma resolveLabels_rejected:
  assumes "\<forall>l\<in>set (labels s). label_name l \<noteq> refName r"
    and "label_reply svc (length (sent s)) = Inl msg"
  shows "resolveLabels svc dflt (r # rs) (s, n, ids)
         = resolveLabels svc dflt rs
             (s\<lparr>sent := sent s @ [CreateLabel (refName r) (refColor dflt r)]\<rparr>, n, ids)"
proof -
  have "find (\<lambda>l. label_name l = refName r) (labels s) = None"
    using assms(1) by (simp add: find_None_iff)
  then show ?thesis using assms(2) by (simp add: Let_def)
qed

lemma importLoop_skip:
  "productExists s p \<Longrightarrow>
   importLoop svc (p # ps) (s, i, k, n) = importLoop svc ps (s, i, k + 1, n)"
  by simp

lemma importLoop_all_skipped:
  "\<forall>p\<in>set ps. productExists s p \<Longrightarrow>
   importLoop svc ps (s, i, k, n) = ((s, i, k + length ps, n), None)"
  by (induction ps arbitrary: k) simp_all

lemma resolveLabels_effect:
  "resolveLabels svc dflt rs (s, n, ids) = (s', n', ids') \<Longrightarrow>
   cards s' = cards s \<and> prefix (sent s) (sent s') \<and> activeList s' = activeList s
   \<and> allProductsList s' = allProductsList s \<and> toasts s' = toasts s"
proof (induction rs arbitrary: s n ids)
  case Nil
  then show ?case by simp
next
  case (Cons r rs)
  show ?case
  proof (cases "find (\<lambda>l. label_name l = refName r) (labels s)")
    case (Some l)
    then show ?thesis using Cons.prems Cons.IH by simp
  next
    case None
    let ?s1 = "s\<lparr>sent := sent s @ [CreateLabel (refName r) (refColor dflt r)]\<rparr>"
    show ?thesis
    proof (cases "label_reply svc (length (sent s))")
      case (Inl msg)
      then have "resolveLabels svc dflt rs (?s1, n, ids) = (s', n', ids')"
        using Cons.prems None by (simp add: Let_def)
      from Cons.IH [OF this] show ?thesis
        by (auto dest: append_prefixD)
    next
      case (Inr l)
      then have "resolveLabels svc dflt rs (?s1\<lparr>labels := labels ?s1 @ [l]\<rparr>, n + 1, ids @ [label_id l])
          = (s', n', ids')"
        using Cons.prems None by (simp add: Let_def)
      from Cons.IH [OF this] show ?thesis
        by (auto dest: append_prefixD)
    qed
  qed
qed

lemma echoesNamesD:
  assumes "echoesNames svc reqs" and "prefix (pre @ [CreateCard l name ids d]) reqs"
    and "card_reply svc (length pre) = Inr c"
  shows "card_name c = name"
proof -
  from assms(2) obtain rest where reqs: "reqs = pre @ [CreateCard l name ids d] @ rest"
    by (auto simp: prefix_def)
  then have "length pre < length reqs" and "reqs ! length pre = CreateCard l name ids d"
    by simp_all
  moreover have "\<forall>k\<in>{0..<length reqs}. case (reqs ! k, card_reply svc k) of
                      (CreateCard _ name _ _, Inr c) \<Rightarrow> card_name c = name
                    | _ \<Rightarrow> True"
    using assms(1) by (simp add: echoesNames_def list_all_iff)
  ultimately have "case (CreateCard l name ids d, card_reply svc (length pre)) of
                      (CreateCard _ name _ _, Inr c) \<Rightarrow> card_name c = name
                    | _ \<Rightarrow> True"
    by (metis atLeastLessThan_iff le0)
  then show ?thesis
    using assms(3) by simp
qed

lemma productExists_mono:
  "prefix (cards s) (cards s') \<Longrightarrow> productExists s p \<Longrightarrow> productExists s' p"
  by (auto simp: productExists_def list_ex_iff dest: set_mono_prefix)

lemma importLoop_effect:
  "importLoop svc ps (s, i, k, n) = ((s', i', k', n'), e) \<Longrightarrow>
   prefix (cards s) (cards s') \<and> prefix (sent s) (sent s')
   \<and> (e = None \<and> echoesNames svc (sent s') \<longrightarrow> (\<forall>p\<in>set ps. productExists s' p))"
proof (induction ps arbitrary: s i k n)
  case Nil
  then show ?case by simp
next
  case (Cons p ps)
  show ?case
  proof (cases "productExists s p")
    case True
    then have "importLoop svc ps (s, i, k + 1, n) = ((s', i', k', n'), e)"
      using Cons.prems by simp
    from Cons.IH [OF this] show ?thesis
      using True productExists_mono by auto
  next
    case False
    obtain s1 n1 ids1 where r1: "resolveLabels svc ''orange'' (product_stores p) (s, n, []) = (s1, n1, ids1)"
      by (metis prod_cases3)
    obtain s2 n2 ids2 where r2: "resolveLabels svc ''green'' (product_locations p) (s1, n1, ids1) = (s2, n2, ids2)"
      by (metis prod_cases3)
    have c2: "cards s2 = cards s" and p2: "prefix (sent s) (sent s2)"
      using resolveLabels_effect [OF r1] resolveLabels_effect [OF r2] by auto
    show ?thesis
    proof (cases "if product_inList p then activeList s2 else allProductsList s2")
      case None
      then have "s' = s2"
        using Cons.prems False r1 r2 by simp
      moreover have "e \<noteq> None"
        using Cons.prems False r1 r2 None by auto
      ultimately show ?thesis using c2 p2 by auto
    next
      case (Some target)
      let ?desc = "case product_desc p of None \<Rightarrow> [] | Some d \<Rightarrow> d"
      let ?req = "CreateCard (list_id target) (product_name p) ids2 ?desc"
      let ?s3 = "s2\<lparr>sent := sent s2 @ [?req]\<rparr>"
      show ?thesis
      proof (cases "card_reply svc (length (sent s2))")
        case (Inl msg)
        then have "s' = ?s3" and "e \<noteq> None"
          using Cons.prems False r1 r2 Some by (auto simp: Let_def)
        then show ?thesis using c2 p2 by auto
      next
        case (Inr c)
        let ?s4 = "?s3\<lparr>cards := cards ?s3 @ [c]\<rparr>"
        have "importLoop svc ps (?s4, i + 1, k, n2) = ((s', i', k', n'), e)"
          using Cons.prems False r1 r2 Some Inr by (simp add: Let_def)
        from Cons.IH [OF this]
        have c': "prefix (cards ?s4) (cards s')" and p': "prefix (sent ?s4) (sent s')"
          and rest: "e = None \<and> echoesNames svc (sent s') \<longrightarrow> (\<forall>p\<in>set ps. productExists s' p)"
          by blast+
        have "prefix (cards s) (cards s')"
          using c' c2 by (auto dest: append_prefixD)
        moreover have "prefix (sent s) (sent s')"
          using p' p2 by (auto dest: append_prefixD intro: prefix_order.trans)
        moreover have "productExists s' p" if "echoesNames svc (sent s')"
        proof -
          have "prefix (sent s2 @ [?req]) (sent s')" using p' by simp
          then have "card_name c = product_name p"
            using echoesNamesD [OF that _ Inr] by blast
          then have "productExists ?s4 p"
            by (simp add: productExists_def)
          then show ?thesis using c' productExists_mono by blast
        qed
        ultimately show ?thesis using rest by auto
      qed
    qed
  qed
qed

lemma importProducts_all_skipped:
  assumes "\<forall>p\<in>set doc. productExists s p"
  shows "importProducts svc (Inr doc) s
         = s\<lparr>toasts := toasts s @ [BusyToast, ImportedToast 0 (length doc) 0]\<rparr>"
proof -
  have "\<forall>p\<in>set doc. productExists (s\<lparr>toasts := toasts s @ [BusyToast]\<rparr>) p"
    using assms by (simp add: productExists_def)
  then have "importLoop svc doc (s\<lparr>toasts := toasts s @ [BusyToast]\<rparr>, 0, 0, 0)
      = ((s\<lparr>toasts := toasts s @ [BusyToast]\<rparr>, 0, 0 + length doc, 0), None)"
    by (rule importLoop_all_skipped)
  then show ?thesis
    by (simp add: importProducts_def)
qed

lemma importProducts_completed:
  assumes completed: "last (toasts (importProducts svc (Inr doc) s)) = ImportedToast i k n"
    and echo: "echoesNames svc (sent (importProducts svc (Inr doc) s))"
  shows "\<forall>p\<in>set doc. productExists (importProducts svc (Inr doc) s) p"
proof -
  obtain r e
    where run: "importLoop svc doc (s\<lparr>toasts := toasts s @ [BusyToast]\<rparr>, 0, 0, 0) = (r, e)"
    by (cases "importLoop svc doc (s\<lparr>toasts := toasts s @ [BusyToast]\<rparr>, 0, 0, 0)")
  obtain s' a b c where r: "r = (s', a, b, c)"
    by (cases r)
  have loop: "importLoop svc doc (s\<lparr>toasts := toasts s @ [BusyToast]\<rparr>, 0, 0, 0)
                 = ((s', a, b, c), e)"
    using run r by simp
  have e: "e = None"
  proof (cases e)
    case (Some err)
    then have "last (toasts (importProducts svc (Inr doc) s)) = ImportErrorToast err"
      by (simp add: importProducts_def loop)
    then show ?thesis using completed by simp
  qed simp
  then have first: "importProducts svc (Inr doc) s = s'\<lparr>toasts := toasts s' @ [ImportedToast a b c]\<rparr>"
    by (simp add: importProducts_def loop)
  have "echoesNames svc (sent s')"
    using echo unfolding first by simp
  then have "\<forall>p\<in>set doc. productExists s' p"
    using importLoop_effect [OF loop] e by blast
  then show ?thesis
    unfolding first by (simp add: productExists_def)
qed

text \<open>
  C5. Import is idempotent on the product name. A product whose name equals the name of
  a cached product up to letter case is skipped: it is counted and the loop goes on in
  the same state, so no card is created. When a first import of a document has
  completed and every card it created is in the cache under the name asked for, a
  second import of the same document changes nothing but the messages shown: it issues
  no call, creates no product and reports every product as skipped.
\<close>

theorem import_idempotent:
  "(productExists s p \<longrightarrow>
      importLoop svc (p # ps) (s, i, k, n) = importLoop svc ps (s, i, k + 1, n))
   \<and> (last (toasts (importProducts svc1 (Inr doc) s0)) = ImportedToast i' k' n'
       \<and> echoesNames svc1 (sent (importProducts svc1 (Inr doc) s0)) \<longrightarrow>
      importProducts svc2 (Inr doc) (importProducts svc1 (Inr doc) s0)
        = (importProducts svc1 (Inr doc) s0)
            \<lparr>toasts := toasts (importProducts svc1 (Inr doc) s0)
                        @ [BusyToast, ImportedToast 0 (length doc) 0]\<rparr>)"
proof (intro conjI impI)
  assume "productExists s p"
  then show "importLoop svc (p # ps) (s, i, k, n) = importLoop svc ps (s, i, k + 1, n)"
    by simp
next
  assume "last (toasts (importProducts svc1 (Inr doc) s0)) = ImportedToast i' k' n'
       \<and> echoesNames svc1 (sent (importProducts svc1 (Inr doc) s0))"
  then have "\<forall>p\<in>set doc. productExists (importProducts svc1 (Inr doc) s0) p"
    using importProducts_completed by blast
  then show "importProducts svc2 (Inr doc) (importProducts svc1 (Inr doc) s0)
        = (importProducts svc1 (Inr doc) s0)
            \<lparr>toasts := toasts (importProducts svc1 (Inr doc) s0)
                        @ [BusyToast, ImportedToast 0 (length doc) 0]\<rparr>"
    by (rule importProducts_all_skipped)
qed

lemmas example_defs = example_app_def example_config_def catalog_list_def active_list_def
  mercadona_def nevera_def leche_def pan_def cafe_def accepting_def rejecting_def

lemmas string_defs = js_def toLowerCase_def lower_unit_def

lemma first_import_eval:
  "first_import = example_app\<lparr>
      cards := [leche, pan, cafe, \<lparr>card_id = ''c4'', card_name = js ''Yogur'', card_desc = [],
                                   idList = ''L1'', idLabels = [''B1'']\<rparr>],
      sent := [CreateCard ''L1'' (js ''Yogur'') [''B1''] []],
      toasts := [BusyToast, ImportedToast 1 1 0]\<rparr>"
  by (simp add: first_import_def importProducts_def productExists_def yogur_def pan_upper_def
      yogur_service_def example_defs string_defs Let_def)

theorem import_idempotent_witness:
  "productExists example_app pan_upper
   \<and> toasts first_import = [BusyToast, ImportedToast 1 1 0]
   \<and> echoesNames yogur_service (sent first_import)
   \<and> importProducts rejecting (Inr [yogur, pan_upper]) first_import
       = first_import\<lparr>toasts := [BusyToast, ImportedToast 1 1 0, BusyToast, ImportedToast 0 2 0]\<rparr>"
  using import_idempotent [of example_app pan_upper rejecting "[]" 0 0 0 yogur_service
      "[yogur, pan_upper]" example_app 1 1 0 rejecting]
  unfolding first_import_def [symmetric]
  by (simp add: first_import_eval productExists_def echoesNames_def pan_upper_def
      yogur_service_def example_defs string_defs)

text \<open>
  C10. During import a referenced label is looked up by exact equality of names. A
  label with exactly the referenced name is used without any call. When the cache holds
  only a label whose name differs in letter case, a label with the referenced name is
  created, and the created label, not the cached one, is the label used for the
  product. The duplicate check of the same loop, in contrast, compares the names of
  products after lowering their case.
\<close>

theorem import_label_resolution:
  "(find (\<lambda>l. label_name l = refName r) (labels s) = Some l \<longrightarrow>
      resolveLabels svc dflt (r # rs) (s, n, ids)
        = resolveLabels svc dflt rs (s, n, ids @ [label_id l]))
   \<and> (l0 \<in> set (labels s) \<and> toLowerCase (label_name l0) = toLowerCase (refName r)
       \<and> (\<forall>l\<in>set (labels s). label_name l \<noteq> refName r)
       \<and> label_reply svc (length (sent s)) = Inr l' \<longrightarrow>
      resolveLabels svc dflt (r # rs) (s, n, ids)
        = resolveLabels svc dflt rs
            (s\<lparr>sent := sent s @ [CreateLabel (refName r) (refColor dflt r)],
               labels := labels s @ [l']\<rparr>, n + 1, ids @ [label_id l']))
   \<and> (c \<in> set (cards s) \<and> toLowerCase (card_name c) = toLowerCase (product_name p) \<longrightarrow>
      productExists s p
      \<and> importLoop svc (p # ps) (s, i, k, n) = importLoop svc ps (s, i, k + 1, n))"
proof (intro conjI impI)
  assume "find (\<lambda>l. label_name l = refName r) (labels s) = Some l"
  then show "resolveLabels svc dflt (r # rs) (s, n, ids)
        = resolveLabels svc dflt rs (s, n, ids @ [label_id l])"
    by (rule resolveLabels_existing)
next
  assume "l0 \<in> set (labels s) \<and> toLowerCase (label_name l0) = toLowerCase (refName r)
       \<and> (\<forall>l\<in>set (labels s). label_name l \<noteq> refName r)
       \<and> label_reply svc (length (sent s)) = Inr l'"
  then show "resolveLabels svc dflt (r # rs) (s, n, ids)
        = resolveLabels svc dflt rs
            (s\<lparr>sent := sent s @ [CreateLabel (refName r) (refColor dflt r)],
               labels := labels s @ [l']\<rparr>, n + 1, ids @ [label_id l'])"
    using resolveLabels_created by blast
next
  assume h: "c \<in> set (cards s) \<and> toLowerCase (card_name c) = toLowerCase (product_name p)"
  then show exists: "productExists s p"
    by (auto simp: productExists_def list_ex_iff)
  then show "importLoop svc (p # ps) (s, i, k, n) = importLoop svc ps (s, i, k + 1, n)"
    by (rule importLoop_skip)
qed

theorem import_label_resolution_witness:
  "mercadona \<in> set (labels example_app)
   \<and> toLowerCase (label_name mercadona) = toLowerCase (js ''mercadona'')
   \<and> label_name mercadona \<noteq> js ''mercadona''
   \<and> sent (importProducts accepting (Inr [queso]) example_app)
       = [CreateLabel (js ''mercadona'') ''orange'', CreateCard ''L1'' (js ''Queso'') [''N''] []]
   \<and> resolveLabels accepting ''orange'' [RefName (js ''Mercadona'')] (example_app, 0, [])
       = (example_app, 0, [''B1''])
   \<and> pan \<in> set (cards example_app)
   \<and> productExists example_app pan_upper"
  using import_label_resolution [of "RefName (js ''Mercadona'')" example_app mercadona accepting
      "''orange''" "[]" 0 "[]" mercadona
      "\<lparr>label_id = ''N'', label_name = js ''Mercadona'', label_color = Some ''orange''\<rparr>"
      pan pan_upper "[]" 0 0]
    import_label_resolution [of "RefName (js ''mercadona'')" example_app mercadona accepting
      "''orange''" "[]" 0 "[]" mercadona
      "\<lparr>label_id = ''N'', label_name = js ''Mercadona'', label_color = Some ''orange''\<rparr>"
      pan pan_upper "[]" 0 0]
  by (simp add: importProducts_def productExists_def queso_def pan_upper_def example_defs
      string_defs Let_def)

end
